theory Spec2Isabelle
  imports Main
begin

section \<open>The pipe endpoint of the agent: \<^verbatim>\<open>src/agent/NamedPipe.cc\<close>\<close>

text \<open>
  The endpoint (\<^verbatim>\<open>NamedPipe\<close>) owns an input queue, an output queue and up to two
  workers (\<^verbatim>\<open>InputWorker\<close>, \<^verbatim>\<open>OutputWorker\<close>), which share the state machine of
  \<^verbatim>\<open>IoWorker::service\<close>. The embedding keeps the source's names.

  Conventions of the embedding.
  \<^item> A \<^verbatim>\<open>HANDLE\<close> is a natural number, \<^verbatim>\<open>NULL\<close> is 0.
  \<^item> A \<^verbatim>\<open>std::string\<close> is a \<open>string\<close> (a list of bytes) of any length. A C++
    \<^verbatim>\<open>int\<close> has 32 bits: where the source narrows a length to \<^verbatim>\<open>int\<close>, as in
    \<^verbatim>\<open>(int)m_inQueue.size()\<close> and \<^verbatim>\<open>int ret = m_outQueue.size()\<close>, the embedding
    wraps it around (\<open>int_of_size\<close>), so a queue of \<open>2^31\<close> bytes has the
    \<^verbatim>\<open>int\<close> length \<open>-2^31\<close>. A negative \<^verbatim>\<open>int\<close> passed where the library takes
    a \<^verbatim>\<open>size_t\<close> becomes a count beyond the length of every string: this is written
    out in \<open>substr0\<close>, \<open>erase0\<close> and \<open>min_size_t\<close>; passed to \<^verbatim>\<open>memcpy\<close> it
    runs out of the buffers, which is the fatal \<open>OutOfBounds\<close>.
  \<^item> The constant \<^verbatim>\<open>kIoSize\<close> (the capacity of a worker's buffer, declared in
    \<^verbatim>\<open>NamedPipe.h\<close>) is a parameter \<open>kIoSize\<close> of the functions that use it.
  \<^item> A parameter the source calls \<^verbatim>\<open>size\<close> is written \<open>sz\<close>.
  \<^item> The operating system is outside the program. Each call of \<^verbatim>\<open>ReadFile\<close>,
    \<^verbatim>\<open>WriteFile\<close> or \<^verbatim>\<open>GetOverlappedResult\<close> takes its outcome from a list of
    replies (\<open>os_reply\<close>), one reply per call, in order. The byte count of a reply
    (\<^verbatim>\<open>DWORD actual\<close>) is a natural number, and the progress \<^verbatim>\<open>service\<close> sums up
    from these counts is an integer that is not wrapped around.
\<close>

type_synonym HANDLE = nat

abbreviation NULL :: HANDLE where
  "NULL \<equiv> 0"

subsection \<open>Fatal conditions\<close>

datatype fatal = AssertFailed | OutOfBounds

text \<open>
  Modelled from the spec: the macro \<^verbatim>\<open>ASSERT\<close> of \<^verbatim>\<open>shared/WinptyAssert.h\<close>, which
  is not among the sources. The spec classes a violated assertion as fatal: the hosting
  process is aborted, nothing is returned to the caller. \<open>ASSERT c rest\<close> runs \<open>rest\<close>
  when \<open>c\<close> holds and ends in \<open>AssertFailed\<close> otherwise.
\<close>

definition ASSERT :: "bool \<Rightarrow> fatal + 'a \<Rightarrow> fatal + 'a" where
  "ASSERT c rest = (if c then rest else Inl AssertFailed)"

subsection \<open>Narrowing to \<^verbatim>\<open>int\<close>\<close>

text \<open>
  The value of a 32-bit \<^verbatim>\<open>int\<close> that receives the integer \<open>x\<close>: \<open>x\<close> itself from
  \<open>-2^31\<close> to \<open>2^31 - 1\<close>, wrapped around by multiples of \<open>2^32\<close> otherwise. And
  the value of \<^verbatim>\<open>(int)n\<close> for a size \<open>n\<close>.
\<close>

definition to_int32 :: "int \<Rightarrow> int" where
  "to_int32 x = (x + 2147483648) mod 4294967296 - 2147483648"

definition int_of_size :: "nat \<Rightarrow> int" where
  "int_of_size n = to_int32 (int n)"

subsection \<open>Data\<close>

text \<open>
  \<^verbatim>\<open>IoWorker\<close>: the pending flag, the size of the operation in flight, the event and the
  private buffer \<^verbatim>\<open>char m_buffer[kIoSize]\<close>. The \<^verbatim>\<open>OVERLAPPED\<close> block and the
  back pointer \<^verbatim>\<open>m_namedPipe\<close> carry no state of their own: the endpoint is passed
  beside the worker wherever the source follows the pointer.
\<close>

record IoWorker =
  m_pending :: bool
  m_currentIoSize :: int
  m_event :: HANDLE
  m_buffer :: string

text \<open>The two subclasses of \<^verbatim>\<open>IoWorker\<close>.\<close>

datatype direction = Input | Output

record NamedPipe =
  m_readBufferSize :: int
  m_handle :: HANDLE
  m_inputWorker :: "IoWorker option"
  m_outputWorker :: "IoWorker option"
  m_inQueue :: string
  m_outQueue :: string

text \<open>\<^verbatim>\<open>NamedPipe::NamedPipe()\<close>\<close>

definition NamedPipe_ctor :: NamedPipe where
  "NamedPipe_ctor =
     \<lparr>m_readBufferSize = 64 * 1024, m_handle = NULL,
      m_inputWorker = None, m_outputWorker = None,
      m_inQueue = [], m_outQueue = []\<rparr>"

text \<open>
  \<^verbatim>\<open>IoWorker::IoWorker\<close>; \<open>ev\<close> is what \<^verbatim>\<open>CreateEventW\<close> returned. The buffer is not
  initialised by the source; it is filled with zero bytes here.
\<close>

definition IoWorker_ctor :: "nat \<Rightarrow> HANDLE \<Rightarrow> fatal + IoWorker" where
  "IoWorker_ctor kIoSize ev =
     ASSERT (ev \<noteq> NULL)
       (Inr \<lparr>m_pending = False, m_currentIoSize = -1, m_event = ev,
             m_buffer = replicate kIoSize (CHR 0x00)\<rparr>)"

subsection \<open>String operations with an \<^verbatim>\<open>int\<close> count\<close>

text \<open>
  \<^verbatim>\<open>s.substr(0, count)\<close> and \<^verbatim>\<open>s.erase(0, count)\<close> take a \<^verbatim>\<open>size_t\<close> count and
  clamp it to the length of \<open>s\<close>. A negative \<^verbatim>\<open>int\<close> converts to a count beyond
  every length, so the whole string is taken, respectively erased.
\<close>

definition substr0 :: "string \<Rightarrow> int \<Rightarrow> string" where
  "substr0 s count = (if count < 0 then s else take (nat count) s)"

definition erase0 :: "string \<Rightarrow> int \<Rightarrow> string" where
  "erase0 s count = (if count < 0 then [] else drop (nat count) s)"

text \<open>\<^verbatim>\<open>std::min<size_t>(size, n)\<close> for an \<^verbatim>\<open>int size\<close> and a length \<open>n\<close>.\<close>

definition min_size_t :: "int \<Rightarrow> nat \<Rightarrow> nat" where
  "min_size_t sz n = (if sz < 0 then n else min (nat sz) n)"

subsection \<open>Accessors of the endpoint\<close>

definition isClosed :: "NamedPipe \<Rightarrow> bool" where
  "isClosed np = (m_handle np = NULL)"

definition readBufferSize :: "NamedPipe \<Rightarrow> int" where
  "readBufferSize np = m_readBufferSize np"

definition setReadBufferSize :: "int \<Rightarrow> NamedPipe \<Rightarrow> NamedPipe" where
  "setReadBufferSize sz np = np\<lparr>m_readBufferSize := sz\<rparr>"

definition bytesAvailable :: "NamedPipe \<Rightarrow> int" where
  "bytesAvailable np = int_of_size (length (m_inQueue np))"

text \<open>\<^verbatim>\<open>OutputWorker::getPendingIoSize\<close>\<close>

definition getPendingIoSize :: "IoWorker \<Rightarrow> int" where
  "getPendingIoSize w = (if m_pending w then m_currentIoSize w else 0)"

text \<open>
  \<^verbatim>\<open>bytesToSend\<close>: the length is narrowed by \<^verbatim>\<open>int ret = m_outQueue.size()\<close>, and
  the sum of \<^verbatim>\<open>ret += ...\<close> is again a 32-bit \<^verbatim>\<open>int\<close>.
\<close>

definition bytesToSend :: "NamedPipe \<Rightarrow> int" where
  "bytesToSend np =
     (let ret = int_of_size (length (m_outQueue np)) in
      case m_outputWorker np of
        None \<Rightarrow> ret
      | Some w \<Rightarrow> to_int32 (ret + getPendingIoSize w))"

text \<open>
  \<^verbatim>\<open>write(data, size)\<close>, named \<open>writeData\<close> since \<open>write\<close> is a keyword of Isabelle:
  the \<open>size\<close> bytes at \<open>data\<close> are the list \<open>bytes\<close>.
\<close>

definition writeData :: "string \<Rightarrow> NamedPipe \<Rightarrow> NamedPipe" where
  "writeData bytes np = np\<lparr>m_outQueue := m_outQueue np @ bytes\<rparr>"

text \<open>A sequence of \<^verbatim>\<open>write\<close> calls, first to last.\<close>

fun writes :: "string list \<Rightarrow> NamedPipe \<Rightarrow> NamedPipe" where
  "writes [] np = np"
| "writes (bytes # rest) np = writes rest (writeData bytes np)"

text \<open>
  \<^verbatim>\<open>peek(data, size)\<close> returns the count and leaves the copied bytes in the caller's
  \<open>data\<close>. With a negative count (a negative \<open>size\<close>, or a queue whose narrowed
  length is negative) \<^verbatim>\<open>memcpy\<close> is asked for at least \<open>2^31\<close> bytes and runs out of
  both buffers.
\<close>

definition peek :: "int \<Rightarrow> NamedPipe \<Rightarrow> fatal + (int \<times> string) \<times> NamedPipe" where
  "peek sz np =
     (let ret = min sz (int_of_size (length (m_inQueue np))) in
      if ret < 0 then Inl OutOfBounds
      else Inr ((ret, take (nat ret) (m_inQueue np)), np))"

definition read :: "int \<Rightarrow> NamedPipe \<Rightarrow> string \<times> NamedPipe" where
  "read sz np =
     (let retSize = min sz (int_of_size (length (m_inQueue np)));
          ret = substr0 (m_inQueue np) retSize
      in (ret, np\<lparr>m_inQueue := erase0 (m_inQueue np) retSize\<rparr>))"

definition readAsVector :: "int \<Rightarrow> NamedPipe \<Rightarrow> string \<times> NamedPipe" where
  "readAsVector sz np =
     (let retSize = min_size_t sz (length (m_inQueue np)) in
      if retSize > 0
      then (take retSize (m_inQueue np), np\<lparr>m_inQueue := drop retSize (m_inQueue np)\<rparr>)
      else (replicate retSize (CHR 0x00), np))"

definition readAll :: "NamedPipe \<Rightarrow> string \<times> NamedPipe" where
  "readAll np = (m_inQueue np, np\<lparr>m_inQueue := []\<rparr>)"

subsection \<open>Teardown\<close>

text \<open>
  The system calls of the teardown are recorded in the order the source makes them:
  \<^verbatim>\<open>CancelIo\<close> on the pipe, the blocking \<^verbatim>\<open>GetOverlappedResult\<close> of a worker with an
  operation in flight (\<open>AwaitCanceled\<close>, by the worker's event), and \<^verbatim>\<open>CloseHandle\<close>.
  The blocking call is taken to return.
\<close>

datatype os_call = CancelIo HANDLE | AwaitCanceled HANDLE | CloseHandle HANDLE

definition waitForCanceledIo :: "IoWorker \<Rightarrow> IoWorker \<times> os_call list" where
  "waitForCanceledIo w =
     (if m_pending w then (w\<lparr>m_pending := False\<rparr>, [AwaitCanceled (m_event w)])
      else (w, []))"

text \<open>\<^verbatim>\<open>m_inputWorker->waitForCanceledIo()\<close> under its null check.\<close>

definition drainWorker :: "IoWorker option \<Rightarrow> IoWorker option \<times> os_call list" where
  "drainWorker p =
     (case p of
        None \<Rightarrow> (None, [])
      | Some w \<Rightarrow> (let (w', calls) = waitForCanceledIo w in (Some w', calls)))"

text \<open>\<^verbatim>\<open>delete\<close> of a worker pointer: \<^verbatim>\<open>IoWorker::~IoWorker\<close> closes the event.\<close>

definition deleteWorker :: "IoWorker option \<Rightarrow> os_call list" where
  "deleteWorker p = (case p of None \<Rightarrow> [] | Some w \<Rightarrow> [CloseHandle (m_event w)])"

definition closePipe :: "NamedPipe \<Rightarrow> NamedPipe \<times> os_call list" where
  "closePipe np =
     (if m_handle np = NULL then (np, [])
      else
        let (iw, drainIn) = drainWorker (m_inputWorker np);
            (ow, drainOut) = drainWorker (m_outputWorker np)
        in (np\<lparr>m_handle := NULL, m_inputWorker := None, m_outputWorker := None\<rparr>,
            [CancelIo (m_handle np)] @ drainIn @ drainOut @
            deleteWorker iw @ deleteWorker ow @ [CloseHandle (m_handle np)]))"

text \<open>\<^verbatim>\<open>IoWorker::getWaitEvent\<close>\<close>

definition getWaitEvent :: "IoWorker \<Rightarrow> HANDLE" where
  "getWaitEvent w = (if m_pending w then m_event w else NULL)"

subsection \<open>The operating system's replies\<close>

text \<open>
  The outcome of one call of \<^verbatim>\<open>ReadFile\<close>, \<^verbatim>\<open>WriteFile\<close> or the polling
  \<^verbatim>\<open>GetOverlappedResult\<close>:
  \<^item> \<open>IoDone actual bytes\<close>: the call returned \<^verbatim>\<open>TRUE\<close> and reported \<open>actual\<close>
    bytes; for a read, \<open>bytes\<close> is what the system stored from the start of the
    worker's buffer (a write stores nothing);
  \<^item> \<open>IoWait\<close>: \<^verbatim>\<open>FALSE\<close> with \<^verbatim>\<open>ERROR_IO_PENDING\<close> (on issuing) or
    \<^verbatim>\<open>ERROR_IO_INCOMPLETE\<close> (on polling);
  \<^item> \<open>IoError\<close>: \<^verbatim>\<open>FALSE\<close> with any other error.
  The system keeps to its contract when a completed read of \<open>n\<close> requested bytes reports
  \<open>actual \<le> n\<close>.
\<close>

datatype os_reply = IoDone nat string | IoWait | IoError

definition storeBuffer :: "string \<Rightarrow> string \<Rightarrow> string" where
  "storeBuffer bytes buf = take (length buf) (bytes @ drop (length bytes) buf)"

text \<open>
  The buffer after a completed operation: \<^verbatim>\<open>ReadFile\<close> has stored the bytes received,
  \<^verbatim>\<open>WriteFile\<close> has stored nothing. When \<^verbatim>\<open>service\<close> polls, the operation in flight is
  the one its worker issues: a read for the input worker, a write for the output worker.
\<close>

definition transferred :: "direction \<Rightarrow> string \<Rightarrow> IoWorker \<Rightarrow> IoWorker" where
  "transferred d bytes w =
     (case d of
        Input \<Rightarrow> w\<lparr>m_buffer := storeBuffer bytes (m_buffer w)\<rparr>
      | Output \<Rightarrow> w)"

subsection \<open>The policies of the two workers\<close>

text \<open>\<^verbatim>\<open>InputWorker::completeIo\<close> and \<^verbatim>\<open>OutputWorker::completeIo\<close>\<close>

fun completeIo :: "direction \<Rightarrow> int \<Rightarrow> IoWorker \<Rightarrow> NamedPipe \<Rightarrow> fatal + NamedPipe" where
  "completeIo Input sz w np =
     Inr (np\<lparr>m_inQueue := m_inQueue np @ take (nat sz) (m_buffer w)\<rparr>)"
| "completeIo Output sz w np =
     ASSERT (sz = m_currentIoSize w) (Inr np)"

text \<open>
  \<^verbatim>\<open>InputWorker::shouldIssueIo\<close> and \<^verbatim>\<open>OutputWorker::shouldIssueIo\<close>. \<open>Inr None\<close>
  is the result \<^verbatim>\<open>false\<close>; \<open>Inr (Some (size, isRead, w', np'))\<close> is the result
  \<^verbatim>\<open>true\<close> with the two values stored through the pointers and the worker and endpoint
  as the call leaves them. Both compute with \<^verbatim>\<open>(int)\<close> casts of the queue length and of
  \<^verbatim>\<open>kIoSize\<close>. When the writer's \<^verbatim>\<open>writeSize\<close> is negative, its \<^verbatim>\<open>memcpy\<close> runs out
  of the buffers: \<open>Inl OutOfBounds\<close>.
\<close>

fun shouldIssueIo ::
  "nat \<Rightarrow> direction \<Rightarrow> IoWorker \<Rightarrow> NamedPipe \<Rightarrow>
   fatal + (int \<times> bool \<times> IoWorker \<times> NamedPipe) option"
where
  "shouldIssueIo kIoSize Input w np =
     (if isClosed np then Inr None
      else if int_of_size (length (m_inQueue np)) < readBufferSize np
      then Inr (Some (int_of_size kIoSize, True, w, np))
      else Inr None)"
| "shouldIssueIo kIoSize Output w np =
     (if m_outQueue np \<noteq> [] then
        let writeSize = min (int_of_size (length (m_outQueue np))) (int_of_size kIoSize) in
        if writeSize < 0 then Inl OutOfBounds
        else
          let w' = w\<lparr>m_buffer := take (nat writeSize) (m_outQueue np) @
                                   drop (nat writeSize) (m_buffer w)\<rparr>;
              np' = np\<lparr>m_outQueue := erase0 (m_outQueue np) writeSize\<rparr>
          in Inr (Some (writeSize, False, w', np'))
      else Inr None)"

declare shouldIssueIo.simps [simp del]

subsection \<open>The state machine of a worker\<close>

text \<open>
  The \<^verbatim>\<open>while\<close> loop of \<^verbatim>\<open>IoWorker::service\<close>, with the progress so far. Each
  iteration that issues an operation takes one reply. The result is \<open>None\<close> when the
  replies end before the loop does: the list did not say what the system answered.
\<close>

fun issueLoop ::
  "nat \<Rightarrow> direction \<Rightarrow> os_reply list \<Rightarrow> int \<Rightarrow> IoWorker \<Rightarrow> NamedPipe \<Rightarrow>
   (fatal + int \<times> IoWorker \<times> NamedPipe) option"
where
  "issueLoop kIoSize d rs progress w np =
     (case shouldIssueIo kIoSize d w np of
        Inl e \<Rightarrow> Some (Inl e)
      | Inr None \<Rightarrow> Some (Inr (progress, w, np))
      | Inr (Some (nextSize, isRead, w1, np1)) \<Rightarrow>
          (case rs of
             [] \<Rightarrow> None
           | r # rs' \<Rightarrow>
               let w2 = w1\<lparr>m_currentIoSize := nextSize\<rparr> in
               (case r of
                  IoWait \<Rightarrow> Some (Inr (progress, w2\<lparr>m_pending := True\<rparr>, np1))
                | IoError \<Rightarrow> Some (Inr (- 1, w2, np1))
                | IoDone actual bytes \<Rightarrow>
                    let w3 = transferred (if isRead then Input else Output) bytes w2 in
                    (case completeIo d (int actual) w3 np1 of
                       Inl e \<Rightarrow> Some (Inl e)
                     | Inr np2 \<Rightarrow>
                         issueLoop kIoSize d rs' (progress + int actual)
                           (w3\<lparr>m_currentIoSize := - 1\<rparr>) np2))))"

declare issueLoop.simps [simp del]

text \<open>\<^verbatim>\<open>IoWorker::service\<close>\<close>

definition service ::
  "nat \<Rightarrow> direction \<Rightarrow> os_reply list \<Rightarrow> IoWorker \<Rightarrow> NamedPipe \<Rightarrow>
   (fatal + int \<times> IoWorker \<times> NamedPipe) option"
where
  "service kIoSize d rs w np =
     (if m_pending w then
        (case rs of
           [] \<Rightarrow> None
         | r # rs' \<Rightarrow>
             (case r of
                IoWait \<Rightarrow> Some (Inr (0, w, np))
              | IoError \<Rightarrow> Some (Inr (- 1, w, np))
              | IoDone actual bytes \<Rightarrow>
                  let w1 = (transferred d bytes w)\<lparr>m_pending := False\<rparr> in
                  (case completeIo d (int actual) w1 np of
                     Inl e \<Rightarrow> Some (Inl e)
                   | Inr np1 \<Rightarrow>
                       issueLoop kIoSize d rs' (0 + int actual)
                         (w1\<lparr>m_currentIoSize := - 1\<rparr>) np1)))
      else issueLoop kIoSize d rs 0 w np)"

subsection \<open>The tick of the endpoint\<close>

definition workerOf :: "direction \<Rightarrow> NamedPipe \<Rightarrow> IoWorker option" where
  "workerOf d np = (case d of Input \<Rightarrow> m_inputWorker np | Output \<Rightarrow> m_outputWorker np)"

definition setWorker :: "direction \<Rightarrow> IoWorker option \<Rightarrow> NamedPipe \<Rightarrow> NamedPipe" where
  "setWorker d p np =
     (case d of Input \<Rightarrow> np\<lparr>m_inputWorker := p\<rparr> | Output \<Rightarrow> np\<lparr>m_outputWorker := p\<rparr>)"

text \<open>
  One of the two blocks of \<^verbatim>\<open>serviceIo\<close> that service a worker under its null check
  and read its wait event: the result is the byte count, the handle and the endpoint
  with the worker as the call left it.
\<close>

definition serviceWorker ::
  "nat \<Rightarrow> direction \<Rightarrow> os_reply list \<Rightarrow> NamedPipe \<Rightarrow>
   (fatal + (int \<times> HANDLE) \<times> NamedPipe) option"
where
  "serviceWorker kIoSize d rs np =
     (case workerOf d np of
        None \<Rightarrow> Some (Inr ((0, NULL), np))
      | Some w \<Rightarrow>
          (case service kIoSize d rs w np of
             None \<Rightarrow> None
           | Some (Inl e) \<Rightarrow> Some (Inl e)
           | Some (Inr (bytes, w', np')) \<Rightarrow>
               Some (Inr ((bytes, getWaitEvent w'), setWorker d (Some w') np'))))"

text \<open>
  \<^verbatim>\<open>vector::push_back\<close> of a handle under the test \<^verbatim>\<open>handle != NULL\<close>.
\<close>

definition pushHandle :: "HANDLE \<Rightarrow> HANDLE list \<Rightarrow> HANDLE list" where
  "pushHandle h waitHandles = (if h \<noteq> NULL then waitHandles @ [h] else waitHandles)"

text \<open>
  \<^verbatim>\<open>NamedPipe::serviceIo\<close>; \<open>rsIn\<close> and \<open>rsOut\<close> are the system's replies to the
  calls of the input and of the output worker during this tick. The result is the value
  returned, the handle set, the system calls of the teardown this tick made (none unless
  a worker failed), and the endpoint.
\<close>

definition serviceIo ::
  "nat \<Rightarrow> os_reply list \<Rightarrow> os_reply list \<Rightarrow> HANDLE list \<Rightarrow> NamedPipe \<Rightarrow>
   (fatal + (bool \<times> HANDLE list \<times> os_call list) \<times> NamedPipe) option"
where
  "serviceIo kIoSize rsIn rsOut waitHandles np =
     (if m_handle np = NULL then Some (Inr ((False, waitHandles, []), np))
      else
        (case serviceWorker kIoSize Input rsIn np of
           None \<Rightarrow> None
         | Some (Inl e) \<Rightarrow> Some (Inl e)
         | Some (Inr ((readBytes, readHandle), np1)) \<Rightarrow>
             (case serviceWorker kIoSize Output rsOut np1 of
                None \<Rightarrow> None
              | Some (Inl e) \<Rightarrow> Some (Inl e)
              | Some (Inr ((writeBytes, writeHandle), np2)) \<Rightarrow>
                  if readBytes = - 1 \<or> writeBytes = - 1
                  then (let (np3, calls) = closePipe np2
                        in Some (Inr ((True, waitHandles, calls), np3)))
                  else Some (Inr ((readBytes > 0 \<or> writeBytes > 0,
                                   pushHandle writeHandle (pushHandle readHandle waitHandles),
                                   []),
                                  np2)))))"

subsection \<open>Connecting\<close>

text \<open>
  \<^verbatim>\<open>connectToServer\<close>; \<open>created\<close> is the result of \<^verbatim>\<open>CreateFileW\<close> (\<open>None\<close> for
  \<^verbatim>\<open>INVALID_HANDLE_VALUE\<close>), \<open>evIn\<close> and \<open>evOut\<close> are the events the two workers
  get from \<^verbatim>\<open>CreateEventW\<close>.
\<close>

definition connectToServer ::
  "nat \<Rightarrow> HANDLE option \<Rightarrow> HANDLE \<Rightarrow> HANDLE \<Rightarrow> NamedPipe \<Rightarrow> fatal + bool \<times> NamedPipe"
where
  "connectToServer kIoSize created evIn evOut np =
     ASSERT (isClosed np)
       (case created of
          None \<Rightarrow> Inr (False, np)
        | Some h \<Rightarrow>
            (case IoWorker_ctor kIoSize evIn of
               Inl e \<Rightarrow> Inl e
             | Inr iw \<Rightarrow>
                 (case IoWorker_ctor kIoSize evOut of
                    Inl e \<Rightarrow> Inl e
                  | Inr ow \<Rightarrow>
                      Inr (True, np\<lparr>m_handle := h, m_inputWorker := Some iw,
                                     m_outputWorker := Some ow\<rparr>))))"

text \<open>\<^verbatim>\<open>adoptHandle(handle, write, name)\<close>; \<open>ev\<close> is the new worker's event.\<close>

definition adoptHandle ::
  "nat \<Rightarrow> HANDLE \<Rightarrow> bool \<Rightarrow> HANDLE \<Rightarrow> NamedPipe \<Rightarrow> fatal + NamedPipe"
where
  "adoptHandle kIoSize h wr ev np =
     ASSERT (isClosed np)
       (case IoWorker_ctor kIoSize ev of
          Inl e \<Rightarrow> Inl e
        | Inr w \<Rightarrow>
            Inr (if wr then np\<lparr>m_handle := h, m_outputWorker := Some w\<rparr>
                 else np\<lparr>m_handle := h, m_inputWorker := Some w\<rparr>))"

subsection \<open>Runs of an endpoint\<close>

text \<open>
  What a producer, a consumer and the event loop do to an endpoint, one call after the
  other: \<^verbatim>\<open>write\<close>, \<^verbatim>\<open>read\<close> and the tick \<^verbatim>\<open>serviceIo\<close> with the system's replies
  of that tick.
\<close>

datatype call = Write string | Read int | Service "os_reply list" "os_reply list"

fun run :: "nat \<Rightarrow> call list \<Rightarrow> NamedPipe \<Rightarrow> (fatal + NamedPipe) option" where
  "run kIoSize [] np = Some (Inr np)"
| "run kIoSize (Write bytes # cs) np = run kIoSize cs (writeData bytes np)"
| "run kIoSize (Read sz # cs) np = run kIoSize cs (snd (read sz np))"
| "run kIoSize (Service rsIn rsOut # cs) np =
     (case serviceIo kIoSize rsIn rsOut [] np of
        None \<Rightarrow> None
      | Some (Inl e) \<Rightarrow> Some (Inl e)
      | Some (Inr (_, np')) \<Rightarrow> run kIoSize cs np')"

subsection \<open>Derived notions and example states\<close>

text \<open>The workers an endpoint holds, the input worker first.\<close>

definition workers :: "NamedPipe \<Rightarrow> IoWorker list" where
  "workers np =
     (case m_inputWorker np of None \<Rightarrow> [] | Some w \<Rightarrow> [w]) @
     (case m_outputWorker np of None \<Rightarrow> [] | Some w \<Rightarrow> [w])"



text \<open>
  The system keeps to its contract in a tick when no completed receive reports more
  bytes than the \<open>kIoSize\<close> requested.
\<close>

fun replyWithin :: "nat \<Rightarrow> os_reply \<Rightarrow> bool" where
  "replyWithin kIoSize (IoDone actual bytes) = (actual \<le> kIoSize)"
| "replyWithin kIoSize IoWait = True"
| "replyWithin kIoSize IoError = True"

fun callWithin :: "nat \<Rightarrow> call \<Rightarrow> bool" where
  "callWithin kIoSize (Service rsIn rsOut) = list_all (replyWithin kIoSize) rsIn"
| "callWithin kIoSize (Write bytes) = True"
| "callWithin kIoSize (Read sz) = True"


text \<open>
  The bound the reader keeps on the input queue: a receive of \<open>kIoSize\<close> bytes is issued
  while the queue is below the limit, so the queue can reach the limit less one plus
  \<open>kIoSize\<close>. The invariant \<open>backpressure\<close>, on the true length of the queue, adds
  that a receive in flight was issued below the limit; \<open>readerOk\<close> is the same for a
  worker held beside its endpoint.
\<close>

definition inputBound :: "nat \<Rightarrow> NamedPipe \<Rightarrow> int" where
  "inputBound kIoSize np = max 0 (readBufferSize np + int kIoSize - 1)"

definition backpressure :: "nat \<Rightarrow> NamedPipe \<Rightarrow> bool" where
  "backpressure kIoSize np \<longleftrightarrow>
     int (length (m_inQueue np)) \<le> inputBound kIoSize np \<and>
     (case m_inputWorker np of
        None \<Rightarrow> True
      | Some w \<Rightarrow> m_pending w \<longrightarrow> int (length (m_inQueue np)) < readBufferSize np)"

definition readerOk :: "nat \<Rightarrow> IoWorker \<Rightarrow> NamedPipe \<Rightarrow> bool" where
  "readerOk kIoSize w np \<longleftrightarrow>
     int (length (m_inQueue np)) \<le> inputBound kIoSize np \<and>
     (m_pending w \<longrightarrow> int (length (m_inQueue np)) < readBufferSize np)"

text \<open>
  The size of the writer's operation in flight (0 without a writer), and the endpoints
  whose counters fit a 32-bit \<^verbatim>\<open>int\<close>: fewer than \<open>2^31\<close> bytes in the input
  queue, and fewer than \<open>2^31\<close> bytes in the output queue and in flight together.
\<close>

definition pendingSize :: "NamedPipe \<Rightarrow> int" where
  "pendingSize np =
     (case m_outputWorker np of None \<Rightarrow> 0 | Some w \<Rightarrow> getPendingIoSize w)"


text \<open>
  The worker \<^verbatim>\<open>IoWorker::IoWorker\<close> builds around the event \<open>ev\<close>, and the endpoint
  \<^verbatim>\<open>connectToServer\<close> leaves when \<^verbatim>\<open>CreateFileW\<close> returns the handle 7 and the
  workers get the events 8 and 9. They are the concrete states of the examples below.
\<close>

definition idleWorker :: "nat \<Rightarrow> HANDLE \<Rightarrow> IoWorker" where
  "idleWorker kIoSize ev =
     \<lparr>m_pending = False, m_currentIoSize = - 1, m_event = ev,
      m_buffer = replicate kIoSize (CHR 0x00)\<rparr>"

definition connectedPipe :: "nat \<Rightarrow> NamedPipe" where
  "connectedPipe kIoSize =
     NamedPipe_ctor\<lparr>m_handle := 7,
        m_inputWorker := Some (idleWorker kIoSize 8),
        m_outputWorker := Some (idleWorker kIoSize 9)\<rparr>"

text \<open>An endpoint with two bytes received and a receive of four bytes in flight.\<close>

definition busyPipe :: NamedPipe where
  "busyPipe =
     (connectedPipe 4)\<lparr>m_inputWorker := Some ((idleWorker 4 8)\<lparr>m_pending := True, m_currentIoSize := 4\<rparr>),
                        m_inQueue := ''xy''\<rparr>"


text \<open>
  The endpoint after a write of five bytes, a tick that received seven bytes and sent
  none, and a read of two bytes, with a read limit of 5 and a buffer of 4.
\<close>

definition drainedPipe :: NamedPipe where
  "drainedPipe =
     \<lparr>m_readBufferSize = 5, m_handle = 7,
      m_inputWorker = Some \<lparr>m_pending = False, m_currentIoSize = - 1, m_event = 8,
                              m_buffer = ''defg''\<rparr>,
      m_outputWorker = Some \<lparr>m_pending = True, m_currentIoSize = 4, m_event = 9,
                               m_buffer = ''hell''\<rparr>,
      m_inQueue = ''cdefg'', m_outQueue = ''o''\<rparr>"

text \<open>
  An endpoint with the default read limit and a buffer of 65536 bytes that holds 65537
  received bytes.
\<close>

definition overfullPipe :: NamedPipe where
  "overfullPipe =
     (connectedPipe 65536)
       \<lparr>m_inputWorker := Some ((idleWorker 65536 8)\<lparr>m_buffer := replicate 65536 CHR ''b''\<rparr>),
        m_inQueue := CHR ''a'' # replicate 65536 CHR ''b''\<rparr>"

text \<open>
  A block of \<open>2^30\<close> bytes, and an endpoint whose input queue holds \<open>2^31\<close> bytes.
\<close>

definition gibibyte :: string where
  "gibibyte = replicate 1073741824 (CHR ''a'')"

definition hugeInPipe :: NamedPipe where
  "hugeInPipe = NamedPipe_ctor\<lparr>m_inQueue := replicate 2147483648 (CHR ''a'')\<rparr>"

section \<open>Basic facts\<close>

lemma idleWorker_sel [simp]:
  "m_pending (idleWorker k ev) = False" "m_currentIoSize (idleWorker k ev) = - 1"
  "m_event (idleWorker k ev) = ev" "m_buffer (idleWorker k ev) = replicate k (CHR 0x00)"
  by (simp_all add: idleWorker_def)

lemma IoWorker_ctor_idleWorker:
  "ev \<noteq> NULL \<Longrightarrow> IoWorker_ctor kIoSize ev = Inr (idleWorker kIoSize ev)"
  by (simp add: IoWorker_ctor_def ASSERT_def idleWorker_def)

lemma connectToServer_connectedPipe:
  "connectToServer kIoSize (Some 7) 8 9 NamedPipe_ctor = Inr (True, connectedPipe kIoSize)"
  by (simp add: connectToServer_def ASSERT_def IoWorker_ctor_idleWorker NamedPipe_ctor_def
      isClosed_def connectedPipe_def)

subsection \<open>Narrowing\<close>

lemma to_int32_id: "- 2147483648 \<le> x \<Longrightarrow> x < 2147483648 \<Longrightarrow> to_int32 x = x"
  by (simp add: to_int32_def)

lemma int_of_size_id: "n < 2147483648 \<Longrightarrow> int_of_size n = int n"
  by (simp add: int_of_size_def to_int32_id)

lemma int_of_size_le: "int_of_size n \<le> int n"
proof -
  have "(int n + 2147483648) mod 4294967296 \<le> int n + 2147483648"
    by (rule zmod_le_nonneg_dividend) simp
  then show ?thesis by (simp add: int_of_size_def to_int32_def)
qed


subsection \<open>The policies\<close>

lemma shouldIssueIo_Input_Some:
  "shouldIssueIo k Input w np = Inr (Some (nextSize, isRead, w1, np1)) \<longleftrightarrow>
     \<not> isClosed np \<and> int_of_size (length (m_inQueue np)) < readBufferSize np \<and>
     nextSize = int_of_size k \<and> isRead \<and> w1 = w \<and> np1 = np"
  by (auto simp: shouldIssueIo.simps)

lemma shouldIssueIo_Input_None:
  "shouldIssueIo k Input w np = Inr None \<longleftrightarrow>
     isClosed np \<or> readBufferSize np \<le> int_of_size (length (m_inQueue np))"
  by (auto simp: shouldIssueIo.simps)

lemma shouldIssueIo_Input_Inl: "shouldIssueIo k Input w np \<noteq> Inl e"
  by (simp add: shouldIssueIo.simps)

lemma shouldIssueIo_Output_Some:
  "shouldIssueIo k Output w np = Inr (Some (nextSize, isRead, w1, np1)) \<longleftrightarrow>
     m_outQueue np \<noteq> [] \<and>
     nextSize = min (int_of_size (length (m_outQueue np))) (int_of_size k) \<and>
     0 \<le> nextSize \<and> \<not> isRead \<and>
     w1 = w\<lparr>m_buffer := take (nat nextSize) (m_outQueue np) @ drop (nat nextSize) (m_buffer w)\<rparr> \<and>
     np1 = np\<lparr>m_outQueue := drop (nat nextSize) (m_outQueue np)\<rparr>"
  by (auto simp: shouldIssueIo.simps Let_def erase0_def)

lemma shouldIssueIo_Output_None:
  "shouldIssueIo k Output w np = Inr None \<longleftrightarrow> m_outQueue np = []"
  by (auto simp: shouldIssueIo.simps Let_def)

lemma shouldIssueIo_Output_Inl:
  "shouldIssueIo k Output w np = Inl e \<longleftrightarrow>
     m_outQueue np \<noteq> [] \<and>
     min (int_of_size (length (m_outQueue np))) (int_of_size k) < 0 \<and> e = OutOfBounds"
  by (auto simp: shouldIssueIo.simps Let_def)

lemma shouldIssueIo_frame:
  assumes "shouldIssueIo k d w np = Inr (Some (nextSize, isRead, w1, np1))"
  shows "m_event w1 = m_event w \<and> m_pending w1 = m_pending w \<and>
    m_currentIoSize w1 = m_currentIoSize w \<and>
    m_handle np1 = m_handle np \<and> m_readBufferSize np1 = m_readBufferSize np \<and>
    m_inputWorker np1 = m_inputWorker np \<and> m_outputWorker np1 = m_outputWorker np \<and>
    isRead = (d = Input)"
  using assms
  by (cases d) (simp_all add: shouldIssueIo_Input_Some shouldIssueIo_Output_Some)

lemma transferred_frame:
  "m_event (transferred d bytes w) = m_event w"
  "m_pending (transferred d bytes w) = m_pending w"
  "m_currentIoSize (transferred d bytes w) = m_currentIoSize w"
  "length (m_buffer (transferred d bytes w)) = length (m_buffer w)"
  by (cases d, simp_all add: transferred_def storeBuffer_def)+

lemma completeIo_frame:
  assumes "completeIo d sz w np = Inr np'"
  shows "m_handle np' = m_handle np \<and> m_readBufferSize np' = m_readBufferSize np \<and>
    m_inputWorker np' = m_inputWorker np \<and> m_outputWorker np' = m_outputWorker np \<and>
    m_outQueue np' = m_outQueue np"
  using assms by (cases d) (auto simp: ASSERT_def split: if_splits)

subsection \<open>Unfolding the loop\<close>

lemma issueLoop_None:
  "shouldIssueIo k d w np = Inr None \<Longrightarrow> issueLoop k d rs p w np = Some (Inr (p, w, np))"
  by (subst issueLoop.simps) simp

lemma issueLoop_Nil:
  "shouldIssueIo k d w np = Inr (Some g) \<Longrightarrow> issueLoop k d [] p w np = None"
  by (subst issueLoop.simps) (simp split: prod.splits)

lemma issueLoop_IoWait:
  "shouldIssueIo k d w np = Inr (Some (nextSize, isRead, w1, np1)) \<Longrightarrow>
   issueLoop k d (IoWait # rs) p w np =
     Some (Inr (p, w1\<lparr>m_currentIoSize := nextSize, m_pending := True\<rparr>, np1))"
  by (subst issueLoop.simps) simp

lemma issueLoop_IoError:
  "shouldIssueIo k d w np = Inr (Some (nextSize, isRead, w1, np1)) \<Longrightarrow>
   issueLoop k d (IoError # rs) p w np =
     Some (Inr (- 1, w1\<lparr>m_currentIoSize := nextSize\<rparr>, np1))"
  by (subst issueLoop.simps) simp

lemma issueLoop_IoDone:
  assumes "shouldIssueIo k d w np = Inr (Some (nextSize, isRead, w1, np1))"
  shows "issueLoop k d (IoDone actual bytes # rs) p w np =
     (case completeIo d (int actual) (transferred d bytes (w1\<lparr>m_currentIoSize := nextSize\<rparr>)) np1 of
        Inl e \<Rightarrow> Some (Inl e)
      | Inr np2 \<Rightarrow>
          issueLoop k d rs (p + int actual)
            ((transferred d bytes (w1\<lparr>m_currentIoSize := nextSize\<rparr>))\<lparr>m_currentIoSize := - 1\<rparr>) np2)"
proof -
  from shouldIssueIo_frame [OF assms] have e: "(if isRead then Input else Output) = d"
    by (cases d) auto
  have "issueLoop k d (IoDone actual bytes # rs) p w np =
     (case completeIo d (int actual)
             (transferred (if isRead then Input else Output) bytes
                (w1\<lparr>m_currentIoSize := nextSize\<rparr>)) np1 of
        Inl e \<Rightarrow> Some (Inl e)
      | Inr np2 \<Rightarrow>
          issueLoop k d rs (p + int actual)
            ((transferred (if isRead then Input else Output) bytes
                (w1\<lparr>m_currentIoSize := nextSize\<rparr>))\<lparr>m_currentIoSize := - 1\<rparr>) np2)"
    by (subst issueLoop.simps)
      (simp only: assms sum.case option.case prod.case list.case os_reply.case Let_def)
  then show ?thesis
    unfolding e .
qed

lemma issueLoop_Inl:
  "shouldIssueIo k d w np = Inl e \<Longrightarrow> issueLoop k d rs p w np = Some (Inl e)"
  by (subst issueLoop.simps) simp

lemma issueLoop_graph [case_names grantsNothing noReply goesPending issueError assertFails completes policyFails]:
  assumes "\<And>rs p w np. shouldIssueIo k d w np = Inr None \<Longrightarrow> P rs p w np (Some (Inr (p, w, np)))"
    and "\<And>p w np nextSize isRead w1 np1.
           shouldIssueIo k d w np = Inr (Some (nextSize, isRead, w1, np1)) \<Longrightarrow> P [] p w np None"
    and "\<And>rs p w np nextSize isRead w1 np1.
           shouldIssueIo k d w np = Inr (Some (nextSize, isRead, w1, np1)) \<Longrightarrow>
           P (IoWait # rs) p w np
             (Some (Inr (p, w1\<lparr>m_currentIoSize := nextSize, m_pending := True\<rparr>, np1)))"
    and "\<And>rs p w np nextSize isRead w1 np1.
           shouldIssueIo k d w np = Inr (Some (nextSize, isRead, w1, np1)) \<Longrightarrow>
           P (IoError # rs) p w np (Some (Inr (- 1, w1\<lparr>m_currentIoSize := nextSize\<rparr>, np1)))"
    and "\<And>rs p w np nextSize isRead w1 np1 actual bytes e.
           shouldIssueIo k d w np = Inr (Some (nextSize, isRead, w1, np1)) \<Longrightarrow>
           completeIo d (int actual) (transferred d bytes (w1\<lparr>m_currentIoSize := nextSize\<rparr>)) np1 = Inl e \<Longrightarrow>
           P (IoDone actual bytes # rs) p w np (Some (Inl e))"
    and "\<And>rs p w np nextSize isRead w1 np1 actual bytes np2 res.
           shouldIssueIo k d w np = Inr (Some (nextSize, isRead, w1, np1)) \<Longrightarrow>
           completeIo d (int actual) (transferred d bytes (w1\<lparr>m_currentIoSize := nextSize\<rparr>)) np1 = Inr np2 \<Longrightarrow>
           P rs (p + int actual)
             ((transferred d bytes (w1\<lparr>m_currentIoSize := nextSize\<rparr>))\<lparr>m_currentIoSize := - 1\<rparr>) np2 res \<Longrightarrow>
           P (IoDone actual bytes # rs) p w np res"
    and "\<And>rs p w np e. shouldIssueIo k d w np = Inl e \<Longrightarrow> P rs p w np (Some (Inl e))"
  shows "P rs p w np (issueLoop k d rs p w np)"
proof (induction rs arbitrary: p w np)
  case Nil
  show ?case
  proof (cases "shouldIssueIo k d w np")
    case (Inl e)
    then show ?thesis by (simp add: issueLoop_Inl assms(7))
  next
    case (Inr g0)
    show ?thesis
    proof (cases g0)
      case None
      with Inr show ?thesis by (simp add: issueLoop_None assms(1))
    next
      case (Some g)
      obtain nextSize isRead w1 np1 where g: "g = (nextSize, isRead, w1, np1)"
        by (cases g) auto
      show ?thesis using Inr Some g assms(2) by (simp add: issueLoop_Nil)
    qed
  qed
next
  case (Cons r rs)
  show ?case
  proof (cases "shouldIssueIo k d w np")
    case (Inl e)
    then show ?thesis by (simp add: issueLoop_Inl assms(7))
  next
    case (Inr g0)
    show ?thesis
    proof (cases g0)
      case None
      with Inr show ?thesis by (simp add: issueLoop_None assms(1))
    next
      case (Some g)
      obtain nextSize isRead w1 np1 where g: "g = (nextSize, isRead, w1, np1)"
        by (cases g) auto
      have s: "shouldIssueIo k d w np = Inr (Some (nextSize, isRead, w1, np1))"
        using Inr Some g by simp
      show ?thesis
      proof (cases r)
        case IoWait
        then show ?thesis using assms(3) [OF s] by (simp add: issueLoop_IoWait [OF s])
      next
        case IoError
        then show ?thesis using assms(4) [OF s] by (simp add: issueLoop_IoError [OF s])
      next
        case (IoDone actual bytes)
        show ?thesis
        proof (cases "completeIo d (int actual) (transferred d bytes (w1\<lparr>m_currentIoSize := nextSize\<rparr>)) np1")
          case (Inl e)
          then show ?thesis using assms(5) [OF s Inl] IoDone
            by (simp add: issueLoop_IoDone [OF s])
        next
          case (Inr np2)
          then show ?thesis using assms(6) [OF s Inr Cons.IH] IoDone
            by (simp add: issueLoop_IoDone [OF s])
        qed
      qed
    qed
  qed
qed

lemma issueLoop_returns [consumes 1, case_names grantsNothing goesPending issueError completes]:
  assumes ret: "issueLoop k d rs p w np = Some (Inr (r, w', np'))"
    and none: "\<And>rs p w np. shouldIssueIo k d w np = Inr None \<Longrightarrow> Q rs p w np p w np"
    and wait: "\<And>rs p w np nextSize isRead w1 np1.
           shouldIssueIo k d w np = Inr (Some (nextSize, isRead, w1, np1)) \<Longrightarrow>
           Q (IoWait # rs) p w np p (w1\<lparr>m_currentIoSize := nextSize, m_pending := True\<rparr>) np1"
    and err: "\<And>rs p w np nextSize isRead w1 np1.
           shouldIssueIo k d w np = Inr (Some (nextSize, isRead, w1, np1)) \<Longrightarrow>
           Q (IoError # rs) p w np (- 1) (w1\<lparr>m_currentIoSize := nextSize\<rparr>) np1"
    and step: "\<And>rs p w np nextSize isRead w1 np1 actual bytes np2 r w' np'.
           shouldIssueIo k d w np = Inr (Some (nextSize, isRead, w1, np1)) \<Longrightarrow>
           completeIo d (int actual) (transferred d bytes (w1\<lparr>m_currentIoSize := nextSize\<rparr>)) np1 = Inr np2 \<Longrightarrow>
           Q rs (p + int actual)
             ((transferred d bytes (w1\<lparr>m_currentIoSize := nextSize\<rparr>))\<lparr>m_currentIoSize := - 1\<rparr>) np2
             r w' np' \<Longrightarrow>
           Q (IoDone actual bytes # rs) p w np r w' np'"
  shows "Q rs p w np r w' np'"
proof -
  have "\<forall>r w' np'. issueLoop k d rs p w np = Some (Inr (r, w', np')) \<longrightarrow> Q rs p w np r w' np'"
  proof (rule issueLoop_graph [where P = "\<lambda>rs p w np res.
      \<forall>r w' np'. res = Some (Inr (r, w', np')) \<longrightarrow> Q rs p w np r w' np'"], goal_cases)
    case (1 rs p w np)
    from none [OF 1] show ?case by blast
  next
    case (2 p w np nextSize isRead w1 np1)
    show ?case by blast
  next
    case (3 rs p w np nextSize isRead w1 np1)
    from wait [OF 3] show ?case by blast
  next
    case (4 rs p w np nextSize isRead w1 np1)
    from err [OF 4] show ?case by blast
  next
    case (5 rs p w np nextSize isRead w1 np1 actual bytes e)
    show ?case by blast
  next
    case (6 rs p w np nextSize isRead w1 np1 actual bytes np2 res)
    show ?case
    proof (intro allI impI)
      fix r w' np'
      assume "res = Some (Inr (r, w', np'))"
      with 6(3) have "Q rs (p + int actual)
             ((transferred d bytes (w1\<lparr>m_currentIoSize := nextSize\<rparr>))\<lparr>m_currentIoSize := - 1\<rparr>) np2
             r w' np'"
        by blast
      with 6(1,2) show "Q (IoDone actual bytes # rs) p w np r w' np'"
        by (rule step)
    qed
  next
    case (7 rs p w np e)
    show ?case by blast
  qed
  with ret show ?thesis by blast
qed

subsection \<open>Unfolding \<^verbatim>\<open>service\<close>\<close>

lemma service_idle:
  "\<not> m_pending w \<Longrightarrow> service k d rs w np = issueLoop k d rs 0 w np"
  by (simp add: service_def)

lemma service_poll_Nil:
  "m_pending w \<Longrightarrow> service k d [] w np = None"
  by (simp add: service_def)

lemma service_poll_IoWait:
  "m_pending w \<Longrightarrow> service k d (IoWait # rs) w np = Some (Inr (0, w, np))"
  by (simp add: service_def)

lemma service_poll_IoError:
  "m_pending w \<Longrightarrow> service k d (IoError # rs) w np = Some (Inr (- 1, w, np))"
  by (simp add: service_def)

lemma service_poll_IoDone:
  "m_pending w \<Longrightarrow>
   service k d (IoDone actual bytes # rs) w np =
     (case completeIo d (int actual) ((transferred d bytes w)\<lparr>m_pending := False\<rparr>) np of
        Inl e \<Rightarrow> Some (Inl e)
      | Inr np1 \<Rightarrow>
          issueLoop k d rs (int actual)
            ((transferred d bytes w)\<lparr>m_pending := False, m_currentIoSize := - 1\<rparr>) np1)"
  by (simp add: service_def Let_def split: sum.splits)

lemma service_cases [consumes 1, case_names idle stillPending pollDone]:
  assumes "service k d rs w np = Some (Inr (r, w', np'))"
    and "\<not> m_pending w \<Longrightarrow> issueLoop k d rs 0 w np = Some (Inr (r, w', np')) \<Longrightarrow> Q"
    and "\<And>r0 rs'. m_pending w \<Longrightarrow> rs = r0 # rs' \<Longrightarrow> r0 = IoWait \<or> r0 = IoError \<Longrightarrow>
           r = (if r0 = IoWait then 0 else - 1) \<Longrightarrow> w' = w \<Longrightarrow> np' = np \<Longrightarrow> Q"
    and "\<And>actual bytes rs' np1. m_pending w \<Longrightarrow> rs = IoDone actual bytes # rs' \<Longrightarrow>
           completeIo d (int actual) ((transferred d bytes w)\<lparr>m_pending := False\<rparr>) np = Inr np1 \<Longrightarrow>
           issueLoop k d rs' (int actual)
             ((transferred d bytes w)\<lparr>m_pending := False, m_currentIoSize := - 1\<rparr>) np1 =
           Some (Inr (r, w', np')) \<Longrightarrow> Q"
  shows Q
proof (cases "m_pending w")
  case False
  with assms(1) have "issueLoop k d rs 0 w np = Some (Inr (r, w', np'))"
    by (simp add: service_idle)
  with False show ?thesis by (rule assms(2))
next
  case True
  show ?thesis
  proof (cases rs)
    case Nil
    with True assms(1) show ?thesis by (simp add: service_poll_Nil)
  next
    case (Cons r0 rs')
    show ?thesis
    proof (cases r0)
      case (IoDone actual bytes)
      have rs: "rs = IoDone actual bytes # rs'"
        using Cons IoDone by simp
      have s: "service k d (IoDone actual bytes # rs') w np = Some (Inr (r, w', np'))"
        using assms(1) rs by simp
      show ?thesis
      proof (cases "completeIo d (int actual) ((transferred d bytes w)\<lparr>m_pending := False\<rparr>) np")
        case (Inl e)
        with s show ?thesis by (simp add: service_poll_IoDone [OF True])
      next
        case (Inr np1)
        with s have "issueLoop k d rs' (int actual)
             ((transferred d bytes w)\<lparr>m_pending := False, m_currentIoSize := - 1\<rparr>) np1 =
           Some (Inr (r, w', np'))"
          by (simp add: service_poll_IoDone [OF True])
        with True rs Inr show ?thesis by (rule assms(4))
      qed
    next
      case IoWait
      have s: "service k d (IoWait # rs') w np = Some (Inr (r, w', np'))"
        using assms(1) Cons IoWait by simp
      show ?thesis
      proof (rule assms(3) [OF True Cons])
        show "r0 = IoWait \<or> r0 = IoError"
          using IoWait by simp
        show "r = (if r0 = IoWait then 0 else - 1)"
          using s IoWait by (simp add: service_poll_IoWait [OF True])
        show "w' = w" "np' = np"
          using s by (simp_all add: service_poll_IoWait [OF True])
      qed
    next
      case IoError
      have s: "service k d (IoError # rs') w np = Some (Inr (r, w', np'))"
        using assms(1) Cons IoError by simp
      show ?thesis
      proof (rule assms(3) [OF True Cons])
        show "r0 = IoWait \<or> r0 = IoError"
          using IoError by simp
        show "r = (if r0 = IoWait then 0 else - 1)"
          using s IoError by (simp add: service_poll_IoError [OF True])
        show "w' = w" "np' = np"
          using s by (simp_all add: service_poll_IoError [OF True])
      qed
    qed
  qed
qed

subsection \<open>What a worker leaves untouched\<close>

lemma issueLoop_frame:
  assumes "issueLoop k d rs p w np = Some (Inr (r, w', np'))"
  shows "m_event w' = m_event w \<and> m_handle np' = m_handle np \<and>
   m_readBufferSize np' = m_readBufferSize np \<and>
   m_inputWorker np' = m_inputWorker np \<and> m_outputWorker np' = m_outputWorker np"
  using assms
proof (induction rule: issueLoop_returns)
  case (grantsNothing rs p w np)
  show ?case by simp
next
  case (goesPending rs p w np nextSize isRead w1 np1)
  from shouldIssueIo_frame [OF this] show ?case by simp
next
  case (issueError rs p w np nextSize isRead w1 np1)
  from shouldIssueIo_frame [OF this] show ?case by simp
next
  case (completes rs p w np nextSize isRead w1 np1 actual bytes np2 r w' np')
  from completes(3) shouldIssueIo_frame [OF completes(1)] completeIo_frame [OF completes(2)]
  show ?case by (simp add: transferred_frame)
qed

lemma service_frame:
  assumes "service k d rs w np = Some (Inr (r, w', np'))"
  shows "m_event w' = m_event w \<and> m_handle np' = m_handle np \<and>
   m_readBufferSize np' = m_readBufferSize np \<and>
   m_inputWorker np' = m_inputWorker np \<and> m_outputWorker np' = m_outputWorker np"
  using assms
proof (cases rule: service_cases)
  case idle
  from issueLoop_frame [OF idle(2)] show ?thesis .
next
  case (stillPending r0 rs')
  then show ?thesis by simp
next
  case (pollDone actual bytes rs' np1)
  from issueLoop_frame [OF pollDone(4)] completeIo_frame [OF pollDone(3)]
  show ?thesis by (simp add: transferred_frame)
qed

section \<open>Bytes to send\<close>

lemma writes_fields:
  "m_outQueue (writes bs np) = m_outQueue np @ concat bs"
  "m_outputWorker (writes bs np) = m_outputWorker np"
  "m_inQueue (writes bs np) = m_inQueue np"
  by (induction bs arbitrary: np) (simp_all add: writeData_def)

lemma pendingSize_writes: "pendingSize (writes bs np) = pendingSize np"
  by (simp add: pendingSize_def writes_fields)

lemma bytesToSend_exact:
  assumes "0 \<le> pendingSize np"
    and "int (length (m_outQueue np)) + pendingSize np < 2147483648"
  shows "bytesToSend np = int (length (m_outQueue np)) + pendingSize np"
proof -
  from assms have l: "length (m_outQueue np) < 2147483648"
    by simp
  show ?thesis
  proof (cases "m_outputWorker np")
    case None
    with l show ?thesis
      by (simp add: bytesToSend_def pendingSize_def int_of_size_id)
  next
    case (Some w)
    with assms l show ?thesis
      by (simp add: bytesToSend_def pendingSize_def int_of_size_id to_int32_id)
  qed
qed

lemma bytesToSend_writes:
  assumes "0 \<le> pendingSize np"
    and "int (length (m_outQueue np)) + pendingSize np + int (sum_list (map length bs)) < 2147483648"
  shows "bytesToSend (writes bs np) = bytesToSend np + int (sum_list (map length bs))"
proof -
  have "bytesToSend (writes bs np) =
      int (length (m_outQueue (writes bs np))) + pendingSize (writes bs np)"
    using assms by (intro bytesToSend_exact) (simp_all add: pendingSize_writes writes_fields length_concat)
  moreover have "bytesToSend np = int (length (m_outQueue np)) + pendingSize np"
    using assms by (intro bytesToSend_exact) simp_all
  ultimately show ?thesis
    by (simp add: pendingSize_writes writes_fields length_concat)
qed

lemma fresh_ctor: "m_outQueue NamedPipe_ctor = [] \<and> pendingSize NamedPipe_ctor = 0"
  by (simp add: NamedPipe_ctor_def pendingSize_def)

lemma fresh_connectToServer:
  "connectToServer kIoSize created evIn evOut NamedPipe_ctor = Inr (ok, np) \<Longrightarrow>
   m_outQueue np = [] \<and> pendingSize np = 0"
  by (auto simp: connectToServer_def ASSERT_def IoWorker_ctor_def pendingSize_def
      NamedPipe_ctor_def getPendingIoSize_def isClosed_def split: option.splits if_splits sum.splits)

lemma fresh_adoptHandle:
  "adoptHandle kIoSize h wr ev NamedPipe_ctor = Inr np \<Longrightarrow>
   m_outQueue np = [] \<and> pendingSize np = 0"
  by (auto simp: adoptHandle_def ASSERT_def IoWorker_ctor_def pendingSize_def
      NamedPipe_ctor_def getPendingIoSize_def isClosed_def split: option.splits if_splits sum.splits)

lemma bytesToSend_fresh_writes:
  assumes "m_outQueue np = [] \<and> pendingSize np = 0"
    and "sum_list (map length bs) < 2147483648"
  shows "bytesToSend (writes bs np) = int (sum_list (map length bs))"
proof -
  from assms have "bytesToSend (writes bs np) = bytesToSend np + int (sum_list (map length bs))"
    by (intro bytesToSend_writes) simp_all
  moreover from assms have "bytesToSend np = 0"
    by (simp add: bytesToSend_exact)
  ultimately show ?thesis by simp
qed

text \<open>
  Claim C1, amended. In every state of the endpoint in which the length of the output
  queue plus the size of the writer's operation in flight (a size of at least 0) is below
  \<open>2^31\<close>, \<^verbatim>\<open>bytesToSend()\<close> is the length of the output queue plus the size of the
  operation in flight when an output worker exists and is pending, and plus 0 otherwise.
  Each \<^verbatim>\<open>write\<close> raises it by the number of bytes written as long as the total stays
  below \<open>2^31\<close>; hence after any sequence of writes of fewer than \<open>2^31\<close> bytes in all,
  on an endpoint no tick has serviced (as the constructor, \<^verbatim>\<open>connectToServer\<close> or
  \<^verbatim>\<open>adoptHandle\<close> left it), it is the sum of the byte counts written.
\<close>

theorem bytesToSend_queue_plus_pending:
  "(0 \<le> pendingSize np \<and> int (length (m_outQueue np)) + pendingSize np < 2147483648 \<longrightarrow>
      bytesToSend np =
        int (length (m_outQueue np)) +
        (case m_outputWorker np of
           None \<Rightarrow> 0
         | Some w \<Rightarrow> if m_pending w then m_currentIoSize w else 0))
   \<and> (0 \<le> pendingSize np \<and>
       int (length (m_outQueue np)) + pendingSize np + int (sum_list (map length bs)) < 2147483648 \<longrightarrow>
        bytesToSend (writes bs np) = bytesToSend np + int (sum_list (map length bs)))
   \<and> (sum_list (map length bs) < 2147483648 \<longrightarrow>
        bytesToSend (writes bs NamedPipe_ctor) = int (sum_list (map length bs)))
   \<and> (sum_list (map length bs) < 2147483648 \<and>
       connectToServer kIoSize created evIn evOut NamedPipe_ctor = Inr (ok, npC) \<longrightarrow>
        bytesToSend (writes bs npC) = int (sum_list (map length bs)))
   \<and> (sum_list (map length bs) < 2147483648 \<and>
       adoptHandle kIoSize h wr ev NamedPipe_ctor = Inr npA \<longrightarrow>
        bytesToSend (writes bs npA) = int (sum_list (map length bs)))"
proof (intro conjI impI)
  assume "0 \<le> pendingSize np \<and> int (length (m_outQueue np)) + pendingSize np < 2147483648"
  then have "bytesToSend np = int (length (m_outQueue np)) + pendingSize np"
    by (simp add: bytesToSend_exact)
  then show "bytesToSend np =
        int (length (m_outQueue np)) +
        (case m_outputWorker np of
           None \<Rightarrow> 0
         | Some w \<Rightarrow> if m_pending w then m_currentIoSize w else 0)"
    by (simp add: pendingSize_def getPendingIoSize_def split: option.splits)
next
  assume "0 \<le> pendingSize np \<and>
       int (length (m_outQueue np)) + pendingSize np + int (sum_list (map length bs)) < 2147483648"
  then show "bytesToSend (writes bs np) = bytesToSend np + int (sum_list (map length bs))"
    by (simp add: bytesToSend_writes)
next
  assume "sum_list (map length bs) < 2147483648"
  then show "bytesToSend (writes bs NamedPipe_ctor) = int (sum_list (map length bs))"
    by (rule bytesToSend_fresh_writes [OF fresh_ctor])
next
  assume a: "sum_list (map length bs) < 2147483648 \<and>
       connectToServer kIoSize created evIn evOut NamedPipe_ctor = Inr (ok, npC)"
  then have "m_outQueue npC = [] \<and> pendingSize npC = 0"
    using fresh_connectToServer by blast
  with a show "bytesToSend (writes bs npC) = int (sum_list (map length bs))"
    by (simp add: bytesToSend_fresh_writes)
next
  assume a: "sum_list (map length bs) < 2147483648 \<and>
       adoptHandle kIoSize h wr ev NamedPipe_ctor = Inr npA"
  then have "m_outQueue npA = [] \<and> pendingSize npA = 0"
    using fresh_adoptHandle by blast
  with a show "bytesToSend (writes bs npA) = int (sum_list (map length bs))"
    by (simp add: bytesToSend_fresh_writes)
qed

text \<open>
  Two writes of two and three bytes on a freshly connected endpoint, and on an endpoint
  that adopted a handle for writing: five bytes to send. A pending send of four bytes
  with one byte queued: five bytes to send.
\<close>

lemma adoptHandle_example:
  "adoptHandle 4 7 True 9 NamedPipe_ctor =
     Inr (NamedPipe_ctor\<lparr>m_handle := 7, m_outputWorker := Some (idleWorker 4 9)\<rparr>)"
  by (simp add: adoptHandle_def ASSERT_def IoWorker_ctor_idleWorker NamedPipe_ctor_def isClosed_def)

lemma drainedPipe_counters:
  "pendingSize drainedPipe = 4" "m_outQueue drainedPipe = ''o''"
  by (simp_all add: pendingSize_def getPendingIoSize_def drainedPipe_def)

theorem bytesToSend_queue_plus_pending_witness:
  "connectToServer 4 (Some 7) 8 9 NamedPipe_ctor = Inr (True, connectedPipe 4)
   \<and> bytesToSend (writes [''ab'', ''cde''] (connectedPipe 4)) = 5
   \<and> adoptHandle 4 7 True 9 NamedPipe_ctor =
       Inr (NamedPipe_ctor\<lparr>m_handle := 7, m_outputWorker := Some (idleWorker 4 9)\<rparr>)
   \<and> bytesToSend (writes [''ab'', ''cde'']
        (NamedPipe_ctor\<lparr>m_handle := 7, m_outputWorker := Some (idleWorker 4 9)\<rparr>)) = 5
   \<and> bytesToSend (writes [''ab'', ''cde''] NamedPipe_ctor) = 5
   \<and> pendingSize drainedPipe = 4
   \<and> bytesToSend drainedPipe = 5
   \<and> bytesToSend (writes [''ab'', ''cde''] drainedPipe) = 10"
  using bytesToSend_queue_plus_pending
      [of drainedPipe "[''ab'', ''cde'']" 4 "Some 7" 8 9 True "connectedPipe 4" 7 True 9
          "NamedPipe_ctor\<lparr>m_handle := 7, m_outputWorker := Some (idleWorker 4 9)\<rparr>"]
    connectToServer_connectedPipe [of 4] adoptHandle_example drainedPipe_counters
  by (simp add: drainedPipe_def)

text \<open>
  Claim C1 as stated covers every endpoint state and every sequence of writes. After two
  writes of \<open>2^30\<close> bytes each on a new endpoint the output queue holds \<open>2^31\<close> bytes,
  \<^verbatim>\<open>int ret = m_outQueue.size()\<close> wraps around, and \<^verbatim>\<open>bytesToSend()\<close> is \<open>-2^31\<close>,
  not the \<open>2^31\<close> bytes written.
\<close>

theorem bytesToSend_overflow_counterexample:
  "sum_list (map length [gibibyte, gibibyte]) = 2147483648 \<and>
   length (m_outQueue (writes [gibibyte, gibibyte] NamedPipe_ctor)) = 2147483648 \<and>
   bytesToSend (writes [gibibyte, gibibyte] NamedPipe_ctor) = - 2147483648 \<and>
   bytesToSend (writes [gibibyte, gibibyte] NamedPipe_ctor) \<noteq>
     int (sum_list (map length [gibibyte, gibibyte]))"
  by (simp add: gibibyte_def writeData_def NamedPipe_ctor_def bytesToSend_def int_of_size_def
      to_int32_def)

section \<open>The writer's policy\<close>

lemma shouldIssueIo_Output_grant:
  assumes "length (m_outQueue np) < 2147483648" and "kIoSize < 2147483648"
    and "m_outQueue np \<noteq> []"
  shows "shouldIssueIo kIoSize Output w np =
    Inr (Some (int (min (length (m_outQueue np)) kIoSize), False,
      w\<lparr>m_buffer := take (min (length (m_outQueue np)) kIoSize) (m_outQueue np) @
                     drop (min (length (m_outQueue np)) kIoSize) (m_buffer w)\<rparr>,
      np\<lparr>m_outQueue := drop (min (length (m_outQueue np)) kIoSize) (m_outQueue np)\<rparr>))"
proof -
  have "min (int_of_size (length (m_outQueue np))) (int_of_size kIoSize) =
      int (min (length (m_outQueue np)) kIoSize)"
    using assms(1,2) by (simp add: int_of_size_id)
  with assms(3) show ?thesis
    by (simp add: shouldIssueIo_Output_Some)
qed

lemma shouldIssueIo_example:
  "shouldIssueIo 4 Output (idleWorker 4 9) (writeData ''abcdef'' (connectedPipe 4)) =
     Inr (Some (4, False, (idleWorker 4 9)\<lparr>m_buffer := ''abcd''\<rparr>,
                (connectedPipe 4)\<lparr>m_outQueue := ''ef''\<rparr>))"
  by (simp add: shouldIssueIo.simps idleWorker_def writeData_def connectedPipe_def
      NamedPipe_ctor_def erase0_def Let_def int_of_size_def to_int32_def)

text \<open>
  Claim C5, amended. The writer's policy answers \<^verbatim>\<open>false\<close> exactly when the output
  queue is empty. When the queue is not empty and both its length and \<open>kIoSize\<close> are
  below \<open>2^31\<close>, it grants a send of the size \<open>min (length of the output queue) kIoSize\<close>.
  Whenever it grants a send, it has copied as many bytes as the issued size from the front
  of the queue to the front of the worker's buffer (the rest of the buffer is as before)
  and removed exactly them from the queue, so the queue before is the copied bytes
  followed by the queue after, and it is shorter by the issued size. This happens at
  issuance: the worker's pending flag is untouched by the policy, and when the system
  then answers that the operation is pending, the loop returns with the queue already
  shortened and the issued size remembered.
\<close>

theorem writer_policy_removes_at_issuance:
  "(shouldIssueIo kIoSize Output w np = Inr None \<longleftrightarrow> m_outQueue np = []) \<and>
   (length (m_outQueue np) < 2147483648 \<and> kIoSize < 2147483648 \<and> m_outQueue np \<noteq> [] \<longrightarrow>
      shouldIssueIo kIoSize Output w np =
        Inr (Some (int (min (length (m_outQueue np)) kIoSize), False,
          w\<lparr>m_buffer := take (min (length (m_outQueue np)) kIoSize) (m_outQueue np) @
                         drop (min (length (m_outQueue np)) kIoSize) (m_buffer w)\<rparr>,
          np\<lparr>m_outQueue := drop (min (length (m_outQueue np)) kIoSize) (m_outQueue np)\<rparr>))) \<and>
   (shouldIssueIo kIoSize Output w np = Inr (Some (nextSize, isRead, wI, npI)) \<longrightarrow>
      (length (m_outQueue np) < 2147483648 \<and> kIoSize < 2147483648 \<longrightarrow>
         nextSize = int (min (length (m_outQueue np)) kIoSize)) \<and>
      \<not> isRead \<and>
      take (nat nextSize) (m_buffer wI) = take (nat nextSize) (m_outQueue np) \<and>
      drop (nat nextSize) (m_buffer wI) = drop (nat nextSize) (m_buffer w) \<and>
      m_outQueue npI = drop (nat nextSize) (m_outQueue np) \<and>
      m_outQueue np = take (nat nextSize) (m_buffer wI) @ m_outQueue npI \<and>
      int (length (m_outQueue np)) - int (length (m_outQueue npI)) = nextSize \<and>
      m_pending wI = m_pending w \<and>
      issueLoop kIoSize Output (IoWait # rs) p w np =
        Some (Inr (p, wI\<lparr>m_currentIoSize := nextSize, m_pending := True\<rparr>, npI)))"
proof (intro conjI impI)
  show "shouldIssueIo kIoSize Output w np = Inr None \<longleftrightarrow> m_outQueue np = []"
    by (rule shouldIssueIo_Output_None)
next
  assume "length (m_outQueue np) < 2147483648 \<and> kIoSize < 2147483648 \<and> m_outQueue np \<noteq> []"
  then show "shouldIssueIo kIoSize Output w np =
        Inr (Some (int (min (length (m_outQueue np)) kIoSize), False,
          w\<lparr>m_buffer := take (min (length (m_outQueue np)) kIoSize) (m_outQueue np) @
                         drop (min (length (m_outQueue np)) kIoSize) (m_buffer w)\<rparr>,
          np\<lparr>m_outQueue := drop (min (length (m_outQueue np)) kIoSize) (m_outQueue np)\<rparr>))"
    by (simp add: shouldIssueIo_Output_grant)
next
  assume s: "shouldIssueIo kIoSize Output w np = Inr (Some (nextSize, isRead, wI, npI))"
    and b: "length (m_outQueue np) < 2147483648 \<and> kIoSize < 2147483648"
  from s b show "nextSize = int (min (length (m_outQueue np)) kIoSize)"
    by (simp add: shouldIssueIo_Output_Some int_of_size_id)
next
  assume s: "shouldIssueIo kIoSize Output w np = Inr (Some (nextSize, isRead, wI, npI))"
  note f = s [unfolded shouldIssueIo_Output_Some]
  from f have e: "nextSize = min (int_of_size (length (m_outQueue np))) (int_of_size kIoSize)"
    and z: "0 \<le> nextSize"
    by blast+
  have "nextSize \<le> int_of_size (length (m_outQueue np))"
    unfolding e by (rule min.cobounded1)
  also have "\<dots> \<le> int (length (m_outQueue np))"
    by (rule int_of_size_le)
  finally have n: "nat nextSize \<le> length (m_outQueue np)"
    using z by linarith
  from f have wI: "wI = w\<lparr>m_buffer := take (nat nextSize) (m_outQueue np) @
      drop (nat nextSize) (m_buffer w)\<rparr>"
    and npI: "npI = np\<lparr>m_outQueue := drop (nat nextSize) (m_outQueue np)\<rparr>"
    and r: "\<not> isRead"
    by blast+
  show "\<not> isRead"
    by (rule r)
  show q: "m_outQueue npI = drop (nat nextSize) (m_outQueue np)"
    by (simp add: npI)
  show t: "take (nat nextSize) (m_buffer wI) = take (nat nextSize) (m_outQueue np)"
    using n by (simp add: wI)
  show "drop (nat nextSize) (m_buffer wI) = drop (nat nextSize) (m_buffer w)"
    using n by (simp add: wI)
  show "m_outQueue np = take (nat nextSize) (m_buffer wI) @ m_outQueue npI"
    by (simp only: t q append_take_drop_id)
  show "int (length (m_outQueue np)) - int (length (m_outQueue npI)) = nextSize"
    using n z by (simp add: q)
  show "m_pending wI = m_pending w"
    by (simp add: wI)
  show "issueLoop kIoSize Output (IoWait # rs) p w np =
        Some (Inr (p, wI\<lparr>m_currentIoSize := nextSize, m_pending := True\<rparr>, npI))"
    by (rule issueLoop_IoWait [OF s])
qed

text \<open>Six bytes queued, a buffer of four: four bytes go to the buffer, two stay queued.\<close>

theorem writer_policy_removes_at_issuance_witness:
  "length (m_outQueue (writeData ''abcdef'' (connectedPipe 4))) < 2147483648 \<and>
   (4::nat) < 2147483648 \<and>
   shouldIssueIo 4 Output (idleWorker 4 9) (writeData ''abcdef'' (connectedPipe 4)) =
     Inr (Some (4, False, (idleWorker 4 9)\<lparr>m_buffer := ''abcd''\<rparr>,
                (connectedPipe 4)\<lparr>m_outQueue := ''ef''\<rparr>)) \<and>
   m_outQueue (writeData ''abcdef'' (connectedPipe 4)) = ''abcdef'' \<and>
   take 4 (m_buffer ((idleWorker 4 9)\<lparr>m_buffer := ''abcd''\<rparr>)) = ''abcd'' \<and>
   m_outQueue ((connectedPipe 4)\<lparr>m_outQueue := ''ef''\<rparr>) = ''ef'' \<and>
   issueLoop 4 Output [IoWait] 0 (idleWorker 4 9) (writeData ''abcdef'' (connectedPipe 4)) =
     Some (Inr (0, (idleWorker 4 9)\<lparr>m_buffer := ''abcd'', m_currentIoSize := 4, m_pending := True\<rparr>,
                (connectedPipe 4)\<lparr>m_outQueue := ''ef''\<rparr>))"
  using writer_policy_removes_at_issuance
    [of 4 "idleWorker 4 9" "writeData ''abcdef'' (connectedPipe 4)" 4 False
        "(idleWorker 4 9)\<lparr>m_buffer := ''abcd''\<rparr>" "(connectedPipe 4)\<lparr>m_outQueue := ''ef''\<rparr>"
        "[]" 0]
    shouldIssueIo_example
  by (simp add: writeData_def connectedPipe_def NamedPipe_ctor_def)

text \<open>
  Claim C5 as stated covers every output queue. After two writes of \<open>2^30\<close> bytes each
  on a connected endpoint the queue holds \<open>2^31\<close> bytes, \<^verbatim>\<open>(int)m_outQueue.size()\<close> is
  \<open>-2^31\<close>, \<^verbatim>\<open>writeSize\<close> is negative and \<^verbatim>\<open>memcpy\<close> runs out of the buffers: the
  queue is not empty and no send is granted.
\<close>

theorem writer_policy_overflow_counterexample:
  "m_outQueue (writes [gibibyte, gibibyte] (connectedPipe 4)) \<noteq> [] \<and>
   length (m_outQueue (writes [gibibyte, gibibyte] (connectedPipe 4))) = 2147483648 \<and>
   min (int_of_size (length (m_outQueue (writes [gibibyte, gibibyte] (connectedPipe 4)))))
       (int_of_size 4) = - 2147483648 \<and>
   shouldIssueIo 4 Output (idleWorker 4 9) (writes [gibibyte, gibibyte] (connectedPipe 4)) =
     Inl OutOfBounds"
  by (simp add: gibibyte_def writeData_def connectedPipe_def NamedPipe_ctor_def
      shouldIssueIo.simps int_of_size_def to_int32_def Let_def)

section \<open>Reading the input queue\<close>

lemma hugeInPipe_length: "length (m_inQueue hugeInPipe) = 2147483648"
  by (simp add: hugeInPipe_def)

text \<open>
  Claim C7, amended. For every state of the input queue with fewer than \<open>2^31\<close> bytes
  and every \<open>n \<ge> 0\<close>, \<^verbatim>\<open>read(n)\<close> returns the first \<open>min n bytesAvailable\<close> bytes of
  the queue, removes exactly them from its front and changes nothing else, so
  \<^verbatim>\<open>bytesAvailable()\<close> drops by exactly that amount; \<^verbatim>\<open>peek(n)\<close> returns that count
  and copies the same prefix and leaves the endpoint as it was.
\<close>

theorem read_peek_prefix:
  "0 \<le> sz \<Longrightarrow> length (m_inQueue np) < 2147483648 \<Longrightarrow>
     bytesAvailable np = int (length (m_inQueue np)) \<and>
     fst (read sz np) = take (nat (min sz (bytesAvailable np))) (m_inQueue np) \<and>
     snd (read sz np) = np\<lparr>m_inQueue := drop (nat (min sz (bytesAvailable np))) (m_inQueue np)\<rparr> \<and>
     int (length (fst (read sz np))) = min sz (bytesAvailable np) \<and>
     bytesAvailable (snd (read sz np)) = bytesAvailable np - min sz (bytesAvailable np) \<and>
     m_inQueue np = fst (read sz np) @ m_inQueue (snd (read sz np)) \<and>
     peek sz np = Inr ((min sz (bytesAvailable np), fst (read sz np)), np)"
proof -
  assume z: "0 \<le> sz" and l: "length (m_inQueue np) < 2147483648"
  have a: "int_of_size (length (m_inQueue np)) = int (length (m_inQueue np))"
    using l by (rule int_of_size_id)
  have d: "int_of_size (length (m_inQueue np) - n) = int (length (m_inQueue np) - n)" for n
    using l by (intro int_of_size_id) simp
  have o: "int_of_size 0 = 0"
    by (simp add: int_of_size_def to_int32_def)
  from z show ?thesis
    by (auto simp: read_def peek_def bytesAvailable_def substr0_def erase0_def Let_def min_def a d o)
qed

theorem read_peek_prefix_witness:
  "(0::int) \<le> 2 \<and>
   length (m_inQueue (NamedPipe_ctor\<lparr>m_inQueue := ''abc''\<rparr>)) < 2147483648 \<and>
   read 2 (NamedPipe_ctor\<lparr>m_inQueue := ''abc''\<rparr>) = (''ab'', NamedPipe_ctor\<lparr>m_inQueue := ''c''\<rparr>) \<and>
   peek 2 (NamedPipe_ctor\<lparr>m_inQueue := ''abc''\<rparr>) =
     Inr ((2, ''ab''), NamedPipe_ctor\<lparr>m_inQueue := ''abc''\<rparr>) \<and>
   bytesAvailable (NamedPipe_ctor\<lparr>m_inQueue := ''abc''\<rparr>) = 3 \<and>
   bytesAvailable (snd (read 2 (NamedPipe_ctor\<lparr>m_inQueue := ''abc''\<rparr>))) = 1"
  using read_peek_prefix [of 2 "NamedPipe_ctor\<lparr>m_inQueue := ''abc''\<rparr>"]
  by (simp add: prod_eq_iff bytesAvailable_def int_of_size_def to_int32_def)

text \<open>
  Claim C7 as stated covers every \<open>n\<close> and every queue. With \<open>n = -1\<close> and the queue
  \<open>ab\<close> the source computes \<^verbatim>\<open>retSize = -1\<close>, and \<^verbatim>\<open>substr(0, -1)\<close> and
  \<^verbatim>\<open>erase(0, -1)\<close> take and erase the whole queue: \<^verbatim>\<open>read\<close> returns \<open>ab\<close>, not the
  first \<open>min (-1) 2\<close> bytes, and \<^verbatim>\<open>bytesAvailable()\<close> drops by 2, not by \<open>min (-1) 2\<close>.
  With \<open>n = 5\<close> and a queue of \<open>2^31\<close> bytes \<^verbatim>\<open>(int)m_inQueue.size()\<close> is \<open>-2^31\<close>, so
  \<^verbatim>\<open>retSize\<close> is negative again: \<^verbatim>\<open>read(5)\<close> returns and removes all \<open>2^31\<close> bytes,
  and \<^verbatim>\<open>peek(5)\<close> hands \<^verbatim>\<open>memcpy\<close> a negative count.
\<close>

theorem read_negative_counterexample:
  "fst (read (- 1) (NamedPipe_ctor\<lparr>m_inQueue := ''ab''\<rparr>)) = ''ab'' \<and>
   fst (read (- 1) (NamedPipe_ctor\<lparr>m_inQueue := ''ab''\<rparr>)) \<noteq>
     take (nat (min (- 1) (bytesAvailable (NamedPipe_ctor\<lparr>m_inQueue := ''ab''\<rparr>))))
       (m_inQueue (NamedPipe_ctor\<lparr>m_inQueue := ''ab''\<rparr>)) \<and>
   bytesAvailable (snd (read (- 1) (NamedPipe_ctor\<lparr>m_inQueue := ''ab''\<rparr>))) = 0 \<and>
   bytesAvailable (snd (read (- 1) (NamedPipe_ctor\<lparr>m_inQueue := ''ab''\<rparr>))) \<noteq>
     bytesAvailable (NamedPipe_ctor\<lparr>m_inQueue := ''ab''\<rparr>) -
     min (- 1) (bytesAvailable (NamedPipe_ctor\<lparr>m_inQueue := ''ab''\<rparr>)) \<and>
   bytesAvailable hugeInPipe = - 2147483648 \<and>
   length (fst (read 5 hugeInPipe)) = 2147483648 \<and>
   fst (read 5 hugeInPipe) \<noteq> take 5 (m_inQueue hugeInPipe) \<and>
   m_inQueue (snd (read 5 hugeInPipe)) = [] \<and>
   peek 5 hugeInPipe = Inl OutOfBounds"
  by (simp add: read_def peek_def bytesAvailable_def substr0_def erase0_def Let_def
      hugeInPipe_def int_of_size_def to_int32_def)

text \<open>
  Claim C10, amended. For every state of the input queue with fewer than \<open>2^31\<close> bytes
  and every \<open>n\<close>, negative ones, zero and the empty queue included,
  \<^verbatim>\<open>readAsVector(n)\<close> returns the same bytes as \<^verbatim>\<open>read(n)\<close> and leaves the endpoint in
  the same state.
\<close>

theorem readAsVector_is_read:
  "length (m_inQueue np) < 2147483648 \<Longrightarrow> readAsVector sz np = read sz np"
proof -
  assume "length (m_inQueue np) < 2147483648"
  then have a: "int_of_size (length (m_inQueue np)) = int (length (m_inQueue np))"
    by (rule int_of_size_id)
  show ?thesis
    by (cases "m_inQueue np = []")
      (auto simp: readAsVector_def read_def min_size_t_def substr0_def erase0_def min_def Let_def a)
qed

theorem readAsVector_is_read_witness:
  "length (m_inQueue (NamedPipe_ctor\<lparr>m_inQueue := ''abc''\<rparr>)) < 2147483648 \<and>
   readAsVector 2 (NamedPipe_ctor\<lparr>m_inQueue := ''abc''\<rparr>) =
     (''ab'', NamedPipe_ctor\<lparr>m_inQueue := ''c''\<rparr>) \<and>
   read 2 (NamedPipe_ctor\<lparr>m_inQueue := ''abc''\<rparr>) =
     (''ab'', NamedPipe_ctor\<lparr>m_inQueue := ''c''\<rparr>) \<and>
   readAsVector (- 1) (NamedPipe_ctor\<lparr>m_inQueue := ''abc''\<rparr>) =
     (''abc'', NamedPipe_ctor\<lparr>m_inQueue := []\<rparr>) \<and>
   read (- 1) (NamedPipe_ctor\<lparr>m_inQueue := ''abc''\<rparr>) =
     (''abc'', NamedPipe_ctor\<lparr>m_inQueue := []\<rparr>)"
  using readAsVector_is_read [of "NamedPipe_ctor\<lparr>m_inQueue := ''abc''\<rparr>" 2]
    readAsVector_is_read [of "NamedPipe_ctor\<lparr>m_inQueue := ''abc''\<rparr>" "- 1"]
  by (simp add: readAsVector_def min_size_t_def)

text \<open>
  Claim C10 as stated covers every queue. \<^verbatim>\<open>read\<close> narrows the length of the queue to
  \<^verbatim>\<open>int\<close>, \<^verbatim>\<open>readAsVector\<close> compares it as a \<^verbatim>\<open>size_t\<close>: on a queue of \<open>2^31\<close>
  bytes \<^verbatim>\<open>readAsVector(5)\<close> returns five bytes and leaves the rest, \<^verbatim>\<open>read(5)\<close> returns
  and removes all of them.
\<close>

theorem readAsVector_differs_counterexample:
  "length (m_inQueue hugeInPipe) = 2147483648 \<and>
   length (fst (readAsVector 5 hugeInPipe)) = 5 \<and>
   length (m_inQueue (snd (readAsVector 5 hugeInPipe))) = 2147483643 \<and>
   length (fst (read 5 hugeInPipe)) = 2147483648 \<and>
   length (m_inQueue (snd (read 5 hugeInPipe))) = 0 \<and>
   readAsVector 5 hugeInPipe \<noteq> read 5 hugeInPipe"
  by (simp add: readAsVector_def read_def min_size_t_def substr0_def erase0_def Let_def
      hugeInPipe_def int_of_size_def to_int32_def prod_eq_iff)

section \<open>Closing\<close>

text \<open>
  Claim C6. \<^verbatim>\<open>closePipe\<close> on a closed endpoint changes nothing and makes no system
  call. On an open endpoint it cancels the outstanding operations (\<^verbatim>\<open>CancelIo\<close>), waits
  for the cancelled operation of each pending worker, destroys both workers (closing
  their events) and releases the pipe handle, in this order; the queues and the read
  limit stay. Afterwards \<^verbatim>\<open>isClosed()\<close> holds and a second \<^verbatim>\<open>closePipe\<close> changes
  nothing.
\<close>

theorem closePipe_idempotent:
  "(isClosed np \<longrightarrow> closePipe np = (np, [])) \<and>
   (\<not> isClosed np \<longrightarrow>
      fst (closePipe np) = np\<lparr>m_handle := NULL, m_inputWorker := None, m_outputWorker := None\<rparr> \<and>
      snd (closePipe np) =
        [CancelIo (m_handle np)] @
        map (\<lambda>w. AwaitCanceled (m_event w)) (filter m_pending (workers np)) @
        map (\<lambda>w. CloseHandle (m_event w)) (workers np) @
        [CloseHandle (m_handle np)]) \<and>
   isClosed (fst (closePipe np)) \<and>
   closePipe (fst (closePipe np)) = (fst (closePipe np), [])"
  by (auto simp: closePipe_def isClosed_def drainWorker_def deleteWorker_def workers_def
      waitForCanceledIo_def Let_def split: option.splits prod.splits)

text \<open>Closing the endpoint with a receive in flight, then closing again.\<close>

theorem closePipe_idempotent_witness:
  "\<not> isClosed busyPipe \<and>
   closePipe busyPipe =
     (busyPipe\<lparr>m_handle := NULL, m_inputWorker := None, m_outputWorker := None\<rparr>,
      [CancelIo 7, AwaitCanceled 8, CloseHandle 8, CloseHandle 9, CloseHandle 7]) \<and>
   isClosed (fst (closePipe busyPipe)) \<and>
   closePipe (NamedPipe_ctor) = (NamedPipe_ctor, []) \<and>
   closePipe (fst (closePipe busyPipe)) = (fst (closePipe busyPipe), [])"
proof -
  have o: "\<not> isClosed busyPipe"
    by (simp add: isClosed_def busyPipe_def connectedPipe_def NamedPipe_ctor_def)
  have c: "isClosed NamedPipe_ctor"
    by (simp add: isClosed_def NamedPipe_ctor_def)
  have w: "workers busyPipe =
     [(idleWorker 4 8)\<lparr>m_pending := True, m_currentIoSize := 4\<rparr>, idleWorker 4 9]"
    by (simp add: workers_def busyPipe_def connectedPipe_def NamedPipe_ctor_def idleWorker_def)
  have h: "m_handle busyPipe = 7"
    by (simp add: busyPipe_def connectedPipe_def NamedPipe_ctor_def)
  note T = closePipe_idempotent [of busyPipe]
  from T have i: "isClosed (fst (closePipe busyPipe))"
    and t: "closePipe (fst (closePipe busyPipe)) = (fst (closePipe busyPipe), [])"
    by blast+
  from T o have f: "fst (closePipe busyPipe) =
      busyPipe\<lparr>m_handle := NULL, m_inputWorker := None, m_outputWorker := None\<rparr>"
    and s0: "snd (closePipe busyPipe) =
        [CancelIo (m_handle busyPipe)] @
        map (\<lambda>w. AwaitCanceled (m_event w)) (filter m_pending (workers busyPipe)) @
        map (\<lambda>w. CloseHandle (m_event w)) (workers busyPipe) @
        [CloseHandle (m_handle busyPipe)]"
    by blast+
  from s0 have s: "snd (closePipe busyPipe) =
      [CancelIo 7, AwaitCanceled 8, CloseHandle 8, CloseHandle 9, CloseHandle 7]"
    by (simp add: w h)
  from closePipe_idempotent [of NamedPipe_ctor] c
  have n: "closePipe NamedPipe_ctor = (NamedPipe_ctor, [])"
    by simp
  from f s have "closePipe busyPipe =
     (busyPipe\<lparr>m_handle := NULL, m_inputWorker := None, m_outputWorker := None\<rparr>,
      [CancelIo 7, AwaitCanceled 8, CloseHandle 8, CloseHandle 9, CloseHandle 7])"
    by (simp add: prod_eq_iff)
  with o i t n show ?thesis
    by blast
qed

section \<open>The writer's completion\<close>

text \<open>
  Claim C8. \<^verbatim>\<open>OutputWorker::completeIo\<close> asserts that the completed byte count is the
  size of the issued operation (\<^verbatim>\<open>m_currentIoSize\<close>). A completion that reports the
  full issued size passes the assertion, on the polling path of \<^verbatim>\<open>service\<close> as on the
  synchronous path of its loop, and the worker goes on. Any other count ends in the
  fatal \<open>AssertFailed\<close>: the call does not return, in particular not with the
  recoverable result \<open>-1\<close>. The size compared on the polling path is the size the
  policy granted when the operation was issued and went pending.
\<close>

theorem writer_completion_assertion:
  "completeIo Output (int actual) w np =
     (if int actual = m_currentIoSize w then Inr np else Inl AssertFailed) \<and>
   (m_pending w \<longrightarrow>
      service kIoSize Output (IoDone actual bytes # rs) w np =
        (if int actual = m_currentIoSize w
         then issueLoop kIoSize Output rs (int actual)
                (w\<lparr>m_pending := False, m_currentIoSize := - 1\<rparr>) np
         else Some (Inl AssertFailed))) \<and>
   (shouldIssueIo kIoSize Output w np = Inr (Some (nextSize, isRead, wI, npI)) \<longrightarrow>
      issueLoop kIoSize Output (IoDone actual bytes # rs) p w np =
        (if int actual = nextSize
         then issueLoop kIoSize Output rs (p + int actual) (wI\<lparr>m_currentIoSize := - 1\<rparr>) npI
         else Some (Inl AssertFailed)) \<and>
      issueLoop kIoSize Output (IoWait # rs) p w np =
        Some (Inr (p, wI\<lparr>m_currentIoSize := nextSize, m_pending := True\<rparr>, npI)) \<and>
      service kIoSize Output (IoDone actual bytes # rs')
          (wI\<lparr>m_currentIoSize := nextSize, m_pending := True\<rparr>) npLater =
        (if int actual = nextSize
         then issueLoop kIoSize Output rs' (int actual)
                (wI\<lparr>m_pending := False, m_currentIoSize := - 1\<rparr>) npLater
         else Some (Inl AssertFailed)))"
  by (auto simp: ASSERT_def service_poll_IoDone issueLoop_IoDone issueLoop_IoWait transferred_def)

text \<open>
  A pending send of four bytes that completes with four bytes, and with three; a
  synchronous send of four bytes that reports two; and the same send gone pending and
  then found complete with two bytes.
\<close>

theorem writer_completion_assertion_witness:
  "m_pending ((idleWorker 4 9)\<lparr>m_pending := True, m_currentIoSize := 4\<rparr>) \<and>
   service 4 Output [IoDone 4 []] ((idleWorker 4 9)\<lparr>m_pending := True, m_currentIoSize := 4\<rparr>)
     (connectedPipe 4) =
     Some (Inr (4, idleWorker 4 9, connectedPipe 4)) \<and>
   service 4 Output [IoDone 3 []] ((idleWorker 4 9)\<lparr>m_pending := True, m_currentIoSize := 4\<rparr>)
     (connectedPipe 4) =
     Some (Inl AssertFailed) \<and>
   shouldIssueIo 4 Output (idleWorker 4 9) (writeData ''abcdef'' (connectedPipe 4)) =
     Inr (Some (4, False, (idleWorker 4 9)\<lparr>m_buffer := ''abcd''\<rparr>,
                (connectedPipe 4)\<lparr>m_outQueue := ''ef''\<rparr>)) \<and>
   issueLoop 4 Output [IoDone 2 []] 0 (idleWorker 4 9) (writeData ''abcdef'' (connectedPipe 4)) =
     Some (Inl AssertFailed) \<and>
   service 4 Output [IoDone 2 []]
     ((idleWorker 4 9)\<lparr>m_buffer := ''abcd'', m_currentIoSize := 4, m_pending := True\<rparr>)
     ((connectedPipe 4)\<lparr>m_outQueue := ''ef''\<rparr>) =
     Some (Inl AssertFailed)"
proof -
  let ?w = "(idleWorker 4 9)\<lparr>m_pending := True, m_currentIoSize := 4\<rparr>"
  have p: "m_pending ?w" by simp
  have e: "m_outQueue (connectedPipe 4) = []"
    by (simp add: connectedPipe_def NamedPipe_ctor_def)
  have i: "?w\<lparr>m_pending := False, m_currentIoSize := - 1\<rparr> = idleWorker 4 9"
    by (simp add: idleWorker_def)
  from writer_completion_assertion [of 4 ?w "connectedPipe 4" 4 "[]" "[]"]
    writer_completion_assertion [of 3 ?w "connectedPipe 4" 4 "[]" "[]"]
    writer_completion_assertion [of 2 "idleWorker 4 9" "writeData ''abcdef'' (connectedPipe 4)"
      4 "[]" "[]" 4 False "(idleWorker 4 9)\<lparr>m_buffer := ''abcd''\<rparr>"
      "(connectedPipe 4)\<lparr>m_outQueue := ''ef''\<rparr>" 0 "[]" "(connectedPipe 4)\<lparr>m_outQueue := ''ef''\<rparr>"]
    shouldIssueIo_example p e i
  show ?thesis
    by (simp add: issueLoop_None shouldIssueIo_Output_None)
qed

section \<open>The wait event\<close>

text \<open>
  Claim C9. Every worker the constructor returns has a non-null event and is idle, and
  \<^verbatim>\<open>service\<close> never changes the event. For every worker with a non-null event
  \<^verbatim>\<open>getWaitEvent()\<close> is non-null if and only if the worker is pending; an idle worker
  exposes no handle.
\<close>

theorem getWaitEvent_iff_pending:
  "(IoWorker_ctor kIoSize ev = Inr w0 \<longrightarrow> m_event w0 \<noteq> NULL \<and> \<not> m_pending w0) \<and>
   (service kIoSize d rs w np = Some (Inr (r, w', np')) \<longrightarrow> m_event w' = m_event w) \<and>
   (m_event w \<noteq> NULL \<longrightarrow> (getWaitEvent w \<noteq> NULL \<longleftrightarrow> m_pending w)) \<and>
   (\<not> m_pending w \<longrightarrow> getWaitEvent w = NULL)"
proof (intro conjI impI)
  assume "IoWorker_ctor kIoSize ev = Inr w0"
  then show "m_event w0 \<noteq> NULL" "\<not> m_pending w0"
    by (auto simp: IoWorker_ctor_def ASSERT_def split: if_splits)
next
  assume "service kIoSize d rs w np = Some (Inr (r, w', np'))"
  from service_frame [OF this] show "m_event w' = m_event w" by simp
next
  assume "m_event w \<noteq> NULL"
  then show "getWaitEvent w \<noteq> NULL \<longleftrightarrow> m_pending w"
    by (simp add: getWaitEvent_def)
next
  assume "\<not> m_pending w"
  then show "getWaitEvent w = NULL" by (simp add: getWaitEvent_def)
qed

text \<open>A new worker exposes no handle; once its first receive is pending it exposes its event.\<close>

theorem getWaitEvent_iff_pending_witness:
  "IoWorker_ctor 4 8 = Inr (idleWorker 4 8) \<and>
   service 4 Input [IoWait] (idleWorker 4 8) (connectedPipe 4) =
     Some (Inr (0, (idleWorker 4 8)\<lparr>m_currentIoSize := 4, m_pending := True\<rparr>, connectedPipe 4)) \<and>
   getWaitEvent (idleWorker 4 8) = NULL \<and>
   getWaitEvent ((idleWorker 4 8)\<lparr>m_currentIoSize := 4, m_pending := True\<rparr>) = 8"
proof -
  have c: "IoWorker_ctor 4 8 = Inr (idleWorker 4 8)"
    by (simp add: IoWorker_ctor_def ASSERT_def idleWorker_def)
  have g: "shouldIssueIo 4 Input (idleWorker 4 8) (connectedPipe 4) =
      Inr (Some (4, True, idleWorker 4 8, connectedPipe 4))"
    by (simp add: shouldIssueIo_Input_Some isClosed_def readBufferSize_def connectedPipe_def
        NamedPipe_ctor_def int_of_size_def to_int32_def)
  have s: "service 4 Input [IoWait] (idleWorker 4 8) (connectedPipe 4) =
     Some (Inr (0, (idleWorker 4 8)\<lparr>m_currentIoSize := 4, m_pending := True\<rparr>, connectedPipe 4))"
    by (simp add: service_idle issueLoop_IoWait [OF g])
  from getWaitEvent_iff_pending [of 4 8 "idleWorker 4 8" Input "[IoWait]" "idleWorker 4 8"
      "connectedPipe 4" 0 "(idleWorker 4 8)\<lparr>m_currentIoSize := 4, m_pending := True\<rparr>" "connectedPipe 4"]
    getWaitEvent_iff_pending [of 4 8 "idleWorker 4 8" Input "[IoWait]"
      "(idleWorker 4 8)\<lparr>m_currentIoSize := 4, m_pending := True\<rparr>"
      "connectedPipe 4" 0 "(idleWorker 4 8)\<lparr>m_currentIoSize := 4, m_pending := True\<rparr>" "connectedPipe 4"]
    c s
  show ?thesis
    by (simp add: getWaitEvent_def)
qed


section \<open>The state machine of a worker\<close>

















text \<open>
  Why the writer's call is shown to return only for sizes below \<open>2^32\<close>: the policy
  computes with \<^verbatim>\<open>(int)kIoSize\<close>. For a buffer of \<open>2^32\<close> bytes that is 0, the policy
  grants a send of no bytes and removes nothing from the queue, and the loop goes on as
  long as the system completes these sends: the replies end before the loop does.
\<close>

lemma issueLoop_zero_size_example:
  "shouldIssueIo 4294967296 Output (idleWorker 4294967296 9)
       (writeData ''a'' (connectedPipe 4294967296)) =
     Inr (Some (0, False, idleWorker 4294967296 9, writeData ''a'' (connectedPipe 4294967296))) \<and>
   service 4294967296 Output [IoDone 0 [], IoDone 0 []] (idleWorker 4294967296 9)
     (writeData ''a'' (connectedPipe 4294967296)) = None"
  by (simp add: service_def issueLoop.simps shouldIssueIo.simps idleWorker_def writeData_def
      connectedPipe_def NamedPipe_ctor_def erase0_def transferred_def ASSERT_def Let_def
      int_of_size_def to_int32_def)

section \<open>The tick of the endpoint\<close>

lemma closePipe_closed [simp]: "isClosed (fst (closePipe np))"
  by (simp add: closePipe_def isClosed_def split: prod.splits)









section \<open>Backpressure on the input queue\<close>

lemma completeIo_Input_grows:
  assumes "completeIo Input (int actual) w np = Inr np'" and "actual \<le> k"
  shows "int (length (m_inQueue np')) \<le> int (length (m_inQueue np)) + int k"
    and "readBufferSize np' = readBufferSize np"
  using assms by (auto simp: readBufferSize_def)

lemma reader_grant_exact:
  assumes "int_of_size (length (m_inQueue np)) < readBufferSize np"
    and "int (length (m_inQueue np)) \<le> inputBound k np" and "inputBound k np < 2147483648"
  shows "int (length (m_inQueue np)) < readBufferSize np"
proof -
  from assms(2,3) have "length (m_inQueue np) < 2147483648"
    by simp
  then have "int_of_size (length (m_inQueue np)) = int (length (m_inQueue np))"
    by (rule int_of_size_id)
  with assms(1) show ?thesis
    by simp
qed

lemma issueLoop_Input_bound:
  assumes "issueLoop k Input rs p w np = Some (Inr (r, w', np'))"
  shows "list_all (replyWithin k) rs \<and> \<not> m_pending w \<and> readerOk k w np \<and>
      inputBound k np < 2147483648 \<longrightarrow>
    readerOk k w' np' \<and> readBufferSize np' = readBufferSize np"
  using assms
proof (induction rule: issueLoop_returns)
  case (grantsNothing rs p w np)
  show ?case by simp
next
  case (goesPending rs p w np nextSize isRead w1 np1)
  show ?case
  proof (intro impI)
    assume a: "list_all (replyWithin k) (IoWait # rs) \<and> \<not> m_pending w \<and> readerOk k w np \<and>
      inputBound k np < 2147483648"
    from goesPending have s: "w1 = w" "np1 = np"
      "int_of_size (length (m_inQueue np)) < readBufferSize np"
      by (simp_all add: shouldIssueIo_Input_Some)
    from a have b: "int (length (m_inQueue np)) \<le> inputBound k np"
      by (simp add: readerOk_def)
    from reader_grant_exact [OF s(3) b] a have "int (length (m_inQueue np)) < readBufferSize np"
      by simp
    with b s show "readerOk k (w1\<lparr>m_currentIoSize := nextSize, m_pending := True\<rparr>) np1 \<and>
      readBufferSize np1 = readBufferSize np"
      by (simp add: readerOk_def)
  qed
next
  case (issueError rs p w np nextSize isRead w1 np1)
  then show ?case
    by (auto simp: shouldIssueIo_Input_Some readerOk_def)
next
  case (completes rs p w np nextSize isRead w1 np1 actual bytes np2 r w' np')
  show ?case
  proof (intro impI)
    assume a: "list_all (replyWithin k) (IoDone actual bytes # rs) \<and> \<not> m_pending w \<and>
      readerOk k w np \<and> inputBound k np < 2147483648"
    from completes(1) have s: "w1 = w" "np1 = np"
      and t: "int_of_size (length (m_inQueue np)) < readBufferSize np"
      by (simp_all add: shouldIssueIo_Input_Some)
    from a have b: "int (length (m_inQueue np)) \<le> inputBound k np"
      by (simp add: readerOk_def)
    from reader_grant_exact [OF t b] a have x: "int (length (m_inQueue np)) < readBufferSize np"
      by simp
    from a have k: "actual \<le> k" by simp
    note g = completeIo_Input_grows [OF completes(2) k]
    let ?w = "(transferred Input bytes (w1\<lparr>m_currentIoSize := nextSize\<rparr>))\<lparr>m_currentIoSize := - 1\<rparr>"
    have p: "\<not> m_pending ?w"
      using a s by (simp add: transferred_frame)
    from g s have i: "inputBound k np2 = inputBound k np"
      by (simp add: inputBound_def)
    have "int (length (m_inQueue np2)) \<le> inputBound k np2"
      using g s x by (simp add: inputBound_def)
    with p have "readerOk k ?w np2"
      by (simp add: readerOk_def)
    with completes(3) a p i have "readerOk k w' np' \<and> readBufferSize np' = readBufferSize np2"
      by simp
    with g s show "readerOk k w' np' \<and> readBufferSize np' = readBufferSize np"
      by simp
  qed
qed

lemma service_Input_bound:
  assumes "service k Input rs w np = Some (Inr (r, w', np'))"
    and "list_all (replyWithin k) rs" and "readerOk k w np"
    and "inputBound k np < 2147483648"
  shows "readerOk k w' np' \<and> readBufferSize np' = readBufferSize np"
  using assms(1)
proof (cases rule: service_cases)
  case idle
  from issueLoop_Input_bound [OF idle(2)] idle(1) assms(2,3,4) show ?thesis by simp
next
  case (stillPending r0 rs')
  with assms(3) show ?thesis by simp
next
  case (pollDone actual bytes rs' np1)
  from assms(2) pollDone(2) have k: "actual \<le> k" and rs': "list_all (replyWithin k) rs'"
    by simp_all
  note g = completeIo_Input_grows [OF pollDone(3) k]
  let ?w = "(transferred Input bytes w)\<lparr>m_pending := False, m_currentIoSize := - 1\<rparr>"
  have p: "\<not> m_pending ?w" by simp
  from assms(3) pollDone(1) have "int (length (m_inQueue np)) < readBufferSize np"
    by (simp add: readerOk_def)
  with g have "int (length (m_inQueue np1)) \<le> inputBound k np1"
    by (simp add: inputBound_def)
  with p have "readerOk k ?w np1"
    by (simp add: readerOk_def)
  moreover from g assms(4) have "inputBound k np1 < 2147483648"
    by (simp add: inputBound_def)
  ultimately show ?thesis
    using issueLoop_Input_bound [OF pollDone(4)] rs' p g by simp
qed

lemma issueLoop_Output_inQueue:
  assumes "issueLoop k Output rs p w np = Some (Inr (r, w', np'))"
  shows "m_inQueue np' = m_inQueue np"
  using assms
proof (induction rule: issueLoop_returns)
  case (completes rs p w np nextSize isRead w1 np1 actual bytes np2 r w' np')
  from completes(2) have "np2 = np1"
    by (simp add: ASSERT_def split: if_splits)
  with completes(1,3) show ?case
    by (simp add: shouldIssueIo_Output_Some)
qed (simp_all add: shouldIssueIo_Output_Some)

lemma service_Output_inQueue:
  assumes "service k Output rs w np = Some (Inr (r, w', np'))"
  shows "m_inQueue np' = m_inQueue np"
  using assms
proof (cases rule: service_cases)
  case idle
  from issueLoop_Output_inQueue [OF idle(2)] show ?thesis .
next
  case (stillPending r0 rs')
  then show ?thesis by simp
next
  case (pollDone actual bytes rs' np1)
  from pollDone(3) have "np1 = np"
    by (simp add: ASSERT_def split: if_splits)
  with issueLoop_Output_inQueue [OF pollDone(4)] show ?thesis by simp
qed

lemma serviceWorker_Input_backpressure:
  assumes "serviceWorker k Input rs np = Some (Inr (res, np'))"
    and "list_all (replyWithin k) rs" and "backpressure k np"
    and "inputBound k np < 2147483648"
  shows "backpressure k np' \<and> readBufferSize np' = readBufferSize np"
proof (cases "m_inputWorker np")
  case None
  with assms show ?thesis by (simp add: serviceWorker_def workerOf_def)
next
  case (Some w)
  with assms(1) obtain r w' np0 where s: "service k Input rs w np = Some (Inr (r, w', np0))"
    and n: "np' = np0\<lparr>m_inputWorker := Some w'\<rparr>"
    by (auto simp: serviceWorker_def workerOf_def setWorker_def split: option.splits sum.splits)
  from assms(3) Some have "readerOk k w np"
    by (simp add: backpressure_def readerOk_def)
  from service_Input_bound [OF s assms(2) this assms(4)] n show ?thesis
    by (auto simp: backpressure_def readerOk_def readBufferSize_def inputBound_def)
qed

lemma serviceWorker_Output_backpressure:
  assumes "serviceWorker k Output rs np = Some (Inr (res, np'))" and "backpressure k np"
  shows "backpressure k np' \<and> readBufferSize np' = readBufferSize np"
proof (cases "m_outputWorker np")
  case None
  with assms show ?thesis by (simp add: serviceWorker_def workerOf_def)
next
  case (Some w)
  with assms(1) obtain r w' np0 where s: "service k Output rs w np = Some (Inr (r, w', np0))"
    and n: "np' = np0\<lparr>m_outputWorker := Some w'\<rparr>"
    by (auto simp: serviceWorker_def workerOf_def setWorker_def split: option.splits sum.splits)
  from service_frame [OF s] service_Output_inQueue [OF s] assms(2) n show ?thesis
    by (auto simp: backpressure_def readBufferSize_def inputBound_def
        split: option.splits)
qed

lemma closePipe_backpressure:
  "backpressure k np \<Longrightarrow>
   backpressure k (fst (closePipe np)) \<and> readBufferSize (fst (closePipe np)) = readBufferSize np"
  by (auto simp: closePipe_def backpressure_def readBufferSize_def
      inputBound_def split: prod.splits option.splits)

lemma serviceIo_backpressure:
  assumes "serviceIo k rsIn rsOut hs np = Some (Inr (res, np'))"
    and "list_all (replyWithin k) rsIn" and "backpressure k np"
    and "inputBound k np < 2147483648"
  shows "backpressure k np' \<and> readBufferSize np' = readBufferSize np"
proof (cases "m_handle np = NULL")
  case True
  with assms show ?thesis by (simp add: serviceIo_def)
next
  case False
  with assms(1) obtain readBytes readHandle npIn writeBytes writeHandle npOut where
    r: "serviceWorker k Input rsIn np = Some (Inr ((readBytes, readHandle), npIn))" and
    w: "serviceWorker k Output rsOut npIn = Some (Inr ((writeBytes, writeHandle), npOut))" and
    n: "np' = npOut \<or> np' = fst (closePipe npOut)"
    by (auto simp: serviceIo_def split_def Let_def split: option.splits sum.splits if_splits)
  note a = serviceWorker_Input_backpressure [OF r assms(2,3,4)]
  then have b: "backpressure k npOut \<and> readBufferSize npOut = readBufferSize np"
    using serviceWorker_Output_backpressure [OF w] by simp
  with n closePipe_backpressure [of k npOut] show ?thesis by auto
qed

lemma writeData_backpressure:
  "backpressure k np \<Longrightarrow>
   backpressure k (writeData bytes np) \<and> readBufferSize (writeData bytes np) = readBufferSize np"
  by (auto simp: backpressure_def writeData_def readBufferSize_def
      inputBound_def split: option.splits)

lemma read_shrinks: "length (m_inQueue (snd (read sz np))) \<le> length (m_inQueue np)"
  by (simp add: read_def erase0_def Let_def)

lemma read_backpressure:
  "backpressure k np \<Longrightarrow>
   backpressure k (snd (read sz np)) \<and> readBufferSize (snd (read sz np)) = readBufferSize np"
proof -
  assume b: "backpressure k np"
  have f: "m_readBufferSize (snd (read sz np)) = m_readBufferSize np"
    "m_inputWorker (snd (read sz np)) = m_inputWorker np"
    by (simp_all add: read_def Let_def)
  from b read_shrinks [of sz np] f show ?thesis
    by (auto simp: backpressure_def readBufferSize_def inputBound_def split: option.splits)
qed

lemma run_backpressure:
  assumes "run k cs np0 = Some (Inr np)" and "list_all (callWithin k) cs"
    and "backpressure k np0" and "inputBound k np0 < 2147483648"
  shows "backpressure k np \<and> readBufferSize np = readBufferSize np0"
  using assms
proof (induction cs arbitrary: np0)
  case Nil
  then show ?case by simp
next
  case (Cons c cs)
  show ?case
  proof (cases c)
    case (Write bytes)
    with Cons.prems have "run k cs (writeData bytes np0) = Some (Inr np)"
      and "list_all (callWithin k) cs"
      by simp_all
    note a = this and b = writeData_backpressure [OF Cons.prems(3), of bytes]
    from b Cons.prems(4) have "inputBound k (writeData bytes np0) < 2147483648"
      by (simp add: inputBound_def)
    from Cons.IH [OF a] b this show ?thesis
      by simp
  next
    case (Read sz)
    with Cons.prems have "run k cs (snd (read sz np0)) = Some (Inr np)"
      and "list_all (callWithin k) cs"
      by simp_all
    note a = this and b = read_backpressure [OF Cons.prems(3), of sz]
    from b Cons.prems(4) have "inputBound k (snd (read sz np0)) < 2147483648"
      by (simp add: inputBound_def)
    from Cons.IH [OF a] b this show ?thesis
      by simp
  next
    case (Service rsIn rsOut)
    with Cons.prems obtain res np1 where
      s: "serviceIo k rsIn rsOut [] np0 = Some (Inr (res, np1))" and
      r: "run k cs np1 = Some (Inr np)"
      by (auto split: option.splits sum.splits)
    from Cons.prems Service have w: "list_all (replyWithin k) rsIn"
      and cs: "list_all (callWithin k) cs"
      by simp_all
    note b = serviceIo_backpressure [OF s w Cons.prems(3,4)]
    from b Cons.prems(4) have "inputBound k np1 < 2147483648"
      by (simp add: inputBound_def)
    from b Cons.IH [OF r cs] this show ?thesis
      by simp
  qed
qed

lemma connectToServer_backpressure:
  assumes "connectToServer k created evIn evOut NamedPipe_ctor = Inr (ok, np)"
  shows "backpressure k np \<and> backpressure k (setReadBufferSize limit np)"
  using assms
  by (auto simp: connectToServer_def ASSERT_def IoWorker_ctor_def NamedPipe_ctor_def
      backpressure_def inputBound_def setReadBufferSize_def
      split: option.splits if_splits)

lemma adoptHandle_backpressure:
  assumes "adoptHandle k h wr ev NamedPipe_ctor = Inr np"
  shows "backpressure k np \<and> backpressure k (setReadBufferSize limit np)"
  using assms
  by (auto simp: adoptHandle_def ASSERT_def IoWorker_ctor_def NamedPipe_ctor_def
      backpressure_def inputBound_def setReadBufferSize_def
      split: option.splits if_splits)

text \<open>
  Claim C2, amended. The reader's policy grants a receive exactly when the endpoint is
  not closed and \<^verbatim>\<open>bytesAvailable()\<close>, the length of the input queue narrowed to
  \<^verbatim>\<open>int\<close>, is strictly below the read limit; the receive always asks for \<open>kIoSize\<close>
  bytes; a completed receive appends its bytes to the input queue. Therefore, for any
  interleaving of \<^verbatim>\<open>write\<close> calls, \<^verbatim>\<open>read\<close> calls and ticks in which no completed
  receive reports more than \<open>kIoSize\<close> bytes, starting from an endpoint as
  \<^verbatim>\<open>connectToServer\<close> or \<^verbatim>\<open>adoptHandle\<close> leaves it (whatever read limit is set
  then), and provided that \<open>readBufferSize - 1 + kIoSize\<close> is below \<open>2^31\<close>, the input
  queue never holds more than \<open>readBufferSize - 1 + kIoSize\<close> bytes (or 0, if that is
  negative), \<^verbatim>\<open>bytesAvailable()\<close> is its length, and the read limit stays as configured.
\<close>

theorem input_queue_soft_limit:
  "(shouldIssueIo kIoSize Input w np = Inr (Some (int_of_size kIoSize, True, w, np)) \<longleftrightarrow>
      \<not> isClosed np \<and> bytesAvailable np < readBufferSize np) \<and>
   (shouldIssueIo kIoSize Input w np = Inr None \<longleftrightarrow>
      isClosed np \<or> readBufferSize np \<le> bytesAvailable np) \<and>
   (shouldIssueIo kIoSize Input w np = Inr (Some (nextSize, isRead, wI, npI)) \<longrightarrow>
      nextSize = int_of_size kIoSize \<and> (kIoSize < 2147483648 \<longrightarrow> nextSize = int kIoSize) \<and>
      isRead \<and> wI = w \<and> npI = np) \<and>
   completeIo Input sz w np =
     Inr (np\<lparr>m_inQueue := m_inQueue np @ take (nat sz) (m_buffer w)\<rparr>) \<and>
   (backpressure kIoSize npStart \<and> inputBound kIoSize npStart < 2147483648 \<and>
    list_all (callWithin kIoSize) cs \<and>
    run kIoSize cs npStart = Some (Inr npEnd) \<longrightarrow>
      int (length (m_inQueue npEnd)) \<le> max 0 (readBufferSize npEnd + int kIoSize - 1) \<and>
      bytesAvailable npEnd = int (length (m_inQueue npEnd)) \<and>
      readBufferSize npEnd = readBufferSize npStart) \<and>
   (connectToServer kIoSize created evIn evOut NamedPipe_ctor = Inr (ok, npC) \<longrightarrow>
      backpressure kIoSize npC \<and> backpressure kIoSize (setReadBufferSize limit npC)) \<and>
   (adoptHandle kIoSize h wr ev NamedPipe_ctor = Inr npA \<longrightarrow>
      backpressure kIoSize npA \<and> backpressure kIoSize (setReadBufferSize limit npA))"
proof (intro conjI impI)
  show "shouldIssueIo kIoSize Input w np = Inr (Some (int_of_size kIoSize, True, w, np)) \<longleftrightarrow>
      \<not> isClosed np \<and> bytesAvailable np < readBufferSize np"
    by (simp add: shouldIssueIo_Input_Some bytesAvailable_def)
next
  show "shouldIssueIo kIoSize Input w np = Inr None \<longleftrightarrow>
      isClosed np \<or> readBufferSize np \<le> bytesAvailable np"
    by (simp add: shouldIssueIo_Input_None bytesAvailable_def)
next
  assume "shouldIssueIo kIoSize Input w np = Inr (Some (nextSize, isRead, wI, npI))"
  then show "nextSize = int_of_size kIoSize" "isRead" "wI = w" "npI = np"
    by (simp_all add: shouldIssueIo_Input_Some)
next
  assume "shouldIssueIo kIoSize Input w np = Inr (Some (nextSize, isRead, wI, npI))"
    and "kIoSize < 2147483648"
  then show "nextSize = int kIoSize"
    by (simp add: shouldIssueIo_Input_Some int_of_size_id)
next
  show "completeIo Input sz w np =
     Inr (np\<lparr>m_inQueue := m_inQueue np @ take (nat sz) (m_buffer w)\<rparr>)"
    by simp
next
  assume a: "backpressure kIoSize npStart \<and> inputBound kIoSize npStart < 2147483648 \<and>
    list_all (callWithin kIoSize) cs \<and>
    run kIoSize cs npStart = Some (Inr npEnd)"
  then have b: "backpressure kIoSize npEnd \<and> readBufferSize npEnd = readBufferSize npStart"
    using run_backpressure [of kIoSize cs npStart npEnd] by simp
  then show l: "int (length (m_inQueue npEnd)) \<le> max 0 (readBufferSize npEnd + int kIoSize - 1)"
    and "readBufferSize npEnd = readBufferSize npStart"
    by (auto simp: backpressure_def inputBound_def)
  from a b have "inputBound kIoSize npEnd < 2147483648"
    by (simp add: inputBound_def)
  with l have "length (m_inQueue npEnd) < 2147483648"
    by (simp add: inputBound_def)
  then show "bytesAvailable npEnd = int (length (m_inQueue npEnd))"
    by (simp add: bytesAvailable_def int_of_size_id)
next
  assume "connectToServer kIoSize created evIn evOut NamedPipe_ctor = Inr (ok, npC)"
  from connectToServer_backpressure [OF this]
  show "backpressure kIoSize npC" "backpressure kIoSize (setReadBufferSize limit npC)"
    by simp_all
next
  assume "adoptHandle kIoSize h wr ev NamedPipe_ctor = Inr npA"
  from adoptHandle_backpressure [OF this]
  show "backpressure kIoSize npA" "backpressure kIoSize (setReadBufferSize limit npA)"
    by simp_all
qed

text \<open>
  A limit of 5 and a buffer of 4: the tick receives three bytes, then four more since
  three is below the limit; seven bytes are queued, within the bound 8.
\<close>

lemma run_example:
  "run 4 [Write ''hello'', Service [IoDone 3 ''abc'', IoDone 4 ''defg'', IoWait] [IoWait], Read 2]
     (setReadBufferSize 5 (connectedPipe 4)) = Some (Inr drainedPipe)"
  by (simp add: serviceIo_def serviceWorker_def service_def issueLoop.simps shouldIssueIo.simps
      workerOf_def setWorker_def getWaitEvent_def pushHandle_def
      idleWorker_def writeData_def read_def setReadBufferSize_def readBufferSize_def
      isClosed_def storeBuffer_def substr0_def
      connectedPipe_def NamedPipe_ctor_def erase0_def transferred_def ASSERT_def Let_def
      drainedPipe_def int_of_size_def to_int32_def)

lemma shouldIssueIo_Input_example:
  "shouldIssueIo 4 Input (idleWorker 4 8) (connectedPipe 4) =
     Inr (Some (4, True, idleWorker 4 8, connectedPipe 4))"
  by (simp add: shouldIssueIo_Input_Some isClosed_def readBufferSize_def connectedPipe_def
      NamedPipe_ctor_def int_of_size_def to_int32_def)

lemma backpressure_example:
  "backpressure 4 (setReadBufferSize 5 (connectedPipe 4))"
  "inputBound 4 (setReadBufferSize 5 (connectedPipe 4)) = 8"
  "adoptHandle 4 7 False 8 NamedPipe_ctor =
     Inr (NamedPipe_ctor\<lparr>m_handle := 7, m_inputWorker := Some (idleWorker 4 8)\<rparr>)"
  by (simp_all add: backpressure_def inputBound_def setReadBufferSize_def readBufferSize_def
      connectedPipe_def NamedPipe_ctor_def idleWorker_def adoptHandle_def ASSERT_def
      IoWorker_ctor_def isClosed_def)

theorem input_queue_soft_limit_witness:
  "backpressure 4 (setReadBufferSize 5 (connectedPipe 4)) \<and>
   inputBound 4 (setReadBufferSize 5 (connectedPipe 4)) < 2147483648 \<and>
   list_all (callWithin 4)
     [Write ''hello'', Service [IoDone 3 ''abc'', IoDone 4 ''defg'', IoWait] [IoWait], Read 2] \<and>
   run 4 [Write ''hello'', Service [IoDone 3 ''abc'', IoDone 4 ''defg'', IoWait] [IoWait], Read 2]
     (setReadBufferSize 5 (connectedPipe 4)) = Some (Inr drainedPipe) \<and>
   bytesAvailable drainedPipe = 5 \<and> readBufferSize drainedPipe = 5 \<and>
   shouldIssueIo 4 Input (idleWorker 4 8) (connectedPipe 4) =
     Inr (Some (4, True, idleWorker 4 8, connectedPipe 4)) \<and>
   connectToServer 4 (Some 7) 8 9 NamedPipe_ctor = Inr (True, connectedPipe 4) \<and>
   adoptHandle 4 7 False 8 NamedPipe_ctor =
     Inr (NamedPipe_ctor\<lparr>m_handle := 7, m_inputWorker := Some (idleWorker 4 8)\<rparr>) \<and>
   backpressure 4 (setReadBufferSize 5
     (NamedPipe_ctor\<lparr>m_handle := 7, m_inputWorker := Some (idleWorker 4 8)\<rparr>))"
  using input_queue_soft_limit
    [where kIoSize = 4 and npStart = "setReadBufferSize 5 (connectedPipe 4)"
       and cs = "[Write ''hello'', Service [IoDone 3 ''abc'', IoDone 4 ''defg'', IoWait] [IoWait], Read 2]"
       and npEnd = drainedPipe and created = "Some 7" and evIn = 8 and evOut = 9 and ok = True
       and npC = "connectedPipe 4" and limit = 5
       and w = "idleWorker 4 8" and np = "connectedPipe 4" and nextSize = 4 and isRead = True
       and wI = "idleWorker 4 8" and npI = "connectedPipe 4"
       and h = 7 and wr = False and ev = 8
       and npA = "NamedPipe_ctor\<lparr>m_handle := 7, m_inputWorker := Some (idleWorker 4 8)\<rparr>"]
    connectToServer_connectedPipe [of 4] run_example shouldIssueIo_Input_example
    backpressure_example
  by (simp add: readBufferSize_def drainedPipe_def)

text \<open>
  Claim C2 as stated bounds the input queue by the read limit itself. With the default
  limit 65536 and a buffer of 65536 bytes, a tick on a freshly connected endpoint that
  receives one byte and then, the queue being below the limit, a full buffer, leaves
  65537 bytes in the input queue. No reply reports more than was requested.
\<close>

theorem input_queue_limit_counterexample:
  "list_all (callWithin 65536) [Service [IoDone 1 ''a'', IoDone 65536 (replicate 65536 CHR ''b'')] []] \<and>
   run 65536 [Service [IoDone 1 ''a'', IoDone 65536 (replicate 65536 CHR ''b'')] []]
     (connectedPipe 65536) = Some (Inr overfullPipe) \<and>
   readBufferSize (connectedPipe 65536) = 65536 \<and>
   readBufferSize overfullPipe = 65536 \<and>
   bytesAvailable overfullPipe = 65537 \<and>
   \<not> bytesAvailable overfullPipe \<le> readBufferSize overfullPipe"
  by (simp add: serviceIo_def serviceWorker_def service_def issueLoop.simps shouldIssueIo.simps
      workerOf_def setWorker_def getWaitEvent_def pushHandle_def
      idleWorker_def readBufferSize_def bytesAvailable_def
      isClosed_def storeBuffer_def
      connectedPipe_def NamedPipe_ctor_def transferred_def Let_def
      overfullPipe_def int_of_size_def to_int32_def)

text \<open>
  Why the amended claim asks for \<open>readBufferSize - 1 + kIoSize < 2^31\<close>: the policy
  compares the narrowed length. With the read limit \<open>2^31 - 1\<close> and \<open>2^31\<close> bytes
  queued, \<^verbatim>\<open>(int)m_inQueue.size()\<close> is \<open>-2^31\<close>, below the limit, and the reader is
  granted another receive although the queue is longer than the limit.
\<close>

lemma reader_grants_past_int_max:
  "readBufferSize (hugeInPipe\<lparr>m_readBufferSize := 2147483647, m_handle := 7\<rparr>)
     < int (length (m_inQueue (hugeInPipe\<lparr>m_readBufferSize := 2147483647, m_handle := 7\<rparr>))) \<and>
   bytesAvailable (hugeInPipe\<lparr>m_readBufferSize := 2147483647, m_handle := 7\<rparr>) = - 2147483648 \<and>
   shouldIssueIo 4 Input (idleWorker 4 8) (hugeInPipe\<lparr>m_readBufferSize := 2147483647, m_handle := 7\<rparr>) =
     Inr (Some (4, True, idleWorker 4 8, hugeInPipe\<lparr>m_readBufferSize := 2147483647, m_handle := 7\<rparr>))"
  by (simp add: shouldIssueIo.simps hugeInPipe_def isClosed_def readBufferSize_def
      bytesAvailable_def NamedPipe_ctor_def int_of_size_def to_int32_def)

section \<open>What a tick moves\<close>





















end
